theory Spec2Isabelle
  imports Complex_Main "HOL-Library.AList"
begin

section \<open>Timeline store: class Data of src/data.py\<close>

text \<open>
  Python values are modelled as follows. Timestamps are floats in the source; they are
  exact rationals here. A frame is a value of an arbitrary type \<open>'f\<close>. An audio chunk is a
  numpy array of shape (rows, columns): its rows, of an arbitrary type \<open>'s\<close> (one row per
  audio frame), and the number of its columns (the channels). Exceptions are values of
  \<open>error\<close>.
\<close>

datatype error =
  ValueError | TypeError | KeyError | AttributeError | OSError | ZeroDivisionError

type_synonym point = "int \<times> int"

record 's ndarray =
  ncols :: nat
  rows :: "'s list"

text \<open>The value under the key "anno": the empty list, or \<open>[command, [x, y]]\<close>.\<close>

datatype anno = NoAnno | Anno string point

text \<open>
  One value of the annotations dict under an integer key. Each field but "anno" may hold
  Python's None (the source writes None there in one branch of add_annotation).
\<close>

record anno_entry =
  idx :: "int option"
  org_idx :: "int option"
  time_str :: "string option"
  anno :: anno
  timestamp :: "rat option"

text \<open>The value save_annotations stores under the string key "metadata".\<close>

record metadata =
  md_video_name :: string
  md_frame_rate :: rat
  md_frame_count :: int
  md_frame_width :: int
  md_frame_height :: int
  md_sample_rate :: int
  md_channels :: int

text \<open>
  The attributes of a Data object. The dict \<open>annotations\<close> is an association list in
  insertion order for its integer keys, together with \<open>annotations_metadata\<close> for the
  value under its one string key "metadata" (None: the key is absent). The attribute
  \<open>max_frame\<close> does not exist until clean() assigns it (None: absent).
\<close>

record ('f, 's) Data =
  in_path :: string
  out_path :: string
  name :: string
  in_file_path :: string
  annotated_dir :: string
  annotated_name :: string
  out_file_path :: string
  frame_rate :: rat
  frame_count :: int
  frame_width :: int
  frame_height :: int
  frames :: "(rat \<times> int \<times> 'f) list"
  audio_data :: "(rat \<times> 's ndarray) list"
  annotations :: "(int \<times> anno_entry) list"
  annotations_metadata :: "metadata option"
  curr_frame :: int
  max_frames :: int
  max_frame :: "int option"
  sample_rate :: int
  channels :: int
  audio_name :: string
  audio_path :: string

text \<open>
  Data.__init__: the path attributes are computed with os.path and str.replace from
  in_path, out_path and name; they are taken as arguments here.
\<close>

definition Data_init ::
  "string \<Rightarrow> string \<Rightarrow> string \<Rightarrow> string \<Rightarrow> string \<Rightarrow> string \<Rightarrow> string \<Rightarrow> string \<Rightarrow> string
    \<Rightarrow> int \<Rightarrow> int \<Rightarrow> rat \<Rightarrow> int \<Rightarrow> int \<Rightarrow> int \<Rightarrow> ('f, 's) Data" where
  "Data_init ip op nm ifp adir aname ofp aun aup fw fh fps fc sr ch =
     \<lparr> in_path = ip, out_path = op, name = nm, in_file_path = ifp, annotated_dir = adir,
       annotated_name = aname, out_file_path = ofp, frame_rate = fps, frame_count = fc,
       frame_width = fw, frame_height = fh, frames = [], audio_data = [], annotations = [],
       annotations_metadata = None, curr_frame = 0, max_frames = fc, max_frame = None,
       sample_rate = sr, channels = ch, audio_name = aun, audio_path = aup \<rparr>"

subsection \<open>Getters\<close>

definition get_frames_length :: "('f, 's) Data \<Rightarrow> int" where
  "get_frames_length d = int (length (frames d))"

definition get_audio_data_length :: "('f, 's) Data \<Rightarrow> int" where
  "get_audio_data_length d = int (length (audio_data d))"

definition get_annotations_length :: "('f, 's) Data \<Rightarrow> int" where
  "get_annotations_length d =
     int (length (annotations d)) + (case annotations_metadata d of None \<Rightarrow> 0 | Some m \<Rightarrow> 1)"

definition get_max_frames :: "('f, 's) Data \<Rightarrow> int" where
  "get_max_frames d = max_frames d"

text \<open>\<open>k in self.annotations\<close> for an integer key.\<close>

definition has_key :: "int \<Rightarrow> ('f, 's) Data \<Rightarrow> bool" where
  "has_key k d = (k \<in> set (map fst (annotations d)))"

text \<open>get_annotation for an integer key: None when the key is absent.\<close>

definition get_annotation :: "int \<Rightarrow> ('f, 's) Data \<Rightarrow> anno_entry option" where
  "get_annotation frame_idx d =
     (if \<not> has_key frame_idx d then None else map_of (annotations d) frame_idx)"

text \<open>Python's max over a non-empty list of integers.\<close>

fun max_list :: "int list \<Rightarrow> int" where
  "max_list [] = 0"
| "max_list (x # xs) = fold max xs x"

text \<open>
  \<open>max(self.annotations.keys())\<close>: ValueError on an empty dict; TypeError when the key
  "metadata" stands beside integer keys (str and int do not compare); the key "metadata"
  itself when it is the only key (\<open>Inr None\<close> here).
\<close>

definition max_key :: "('f, 's) Data \<Rightarrow> error + int option" where
  "max_key d =
     (case annotations_metadata d of
        None \<Rightarrow> (if annotations d = [] then Inl ValueError
                 else Inr (Some (max_list (map fst (annotations d)))))
      | Some m \<Rightarrow> (if annotations d = [] then Inr None else Inl TypeError))"

text \<open>
  get_last_anno: \<open>Inr None\<close> is Python's None. Past the guard, the value under the
  largest key is subscripted with "anno": KeyError on the metadata dict, TypeError on None.
\<close>

definition get_last_anno :: "('f, 's) Data \<Rightarrow> error + anno option" where
  "get_last_anno d =
     (if get_frames_length d = 0 \<or> get_annotations_length d = 0 then Inr None
      else case max_key d of
             Inl e \<Rightarrow> Inl e
           | Inr None \<Rightarrow> Inl KeyError
           | Inr (Some k) \<Rightarrow>
               (case get_annotation k d of
                  None \<Rightarrow> Inl TypeError
                | Some e \<Rightarrow> Inr (Some (anno e))))"

subsection \<open>Adding data\<close>

definition increment_max_frame :: "('f, 's) Data \<Rightarrow> ('f, 's) Data" where
  "increment_max_frame d = d\<lparr>max_frames := max_frames d + 1\<rparr>"

text \<open>
  add_curr_frame. The index it assigns is \<open>new_frame_idx\<close>, the length of the frame list
  after the append, minus one. \<open>self.annotations[k] = v\<close> is \<open>AList.update\<close>: a new key
  goes to the end, an old one keeps its place.
\<close>

definition new_frame_idx :: "('f, 's) Data \<Rightarrow> int" where
  "new_frame_idx d = get_frames_length d - 1"

definition add_curr_frame ::
  "int \<Rightarrow> int \<Rightarrow> 'f \<Rightarrow> string \<Rightarrow> rat \<Rightarrow> ('f, 's) Data \<Rightarrow> ('f, 's) Data" where
  "add_curr_frame org_frame_idx frame_idx frame tstr ts d =
     (let d1 = (if frame_idx = max_frames d then increment_max_frame d else d);
          d2 = d1\<lparr>frames := frames d1 @ [(ts, frame_idx, frame)]\<rparr>;
          k = new_frame_idx d2
      in if \<not> has_key k d2
         then d2\<lparr>annotations := AList.update k
                  \<lparr>idx = Some frame_idx, org_idx = Some org_frame_idx, time_str = Some tstr,
                    anno = NoAnno, timestamp = Some ts\<rparr> (annotations d2)\<rparr>
         else d2\<lparr>annotations := AList.map_entry k
                  (\<lambda>e. e\<lparr>idx := Some frame_idx, org_idx := Some org_frame_idx,
                          time_str := Some tstr, timestamp := Some ts\<rparr>) (annotations d2)\<rparr>)"

definition add_audio_data :: "rat \<Rightarrow> 's ndarray \<Rightarrow> ('f, 's) Data \<Rightarrow> ('f, 's) Data" where
  "add_audio_data ts audio d = d\<lparr>audio_data := audio_data d @ [(ts, audio)]\<rparr>"

text \<open>\<open>a and a[0] == "start"\<close> on the value under "anno".\<close>

fun anno_is_start :: "anno \<Rightarrow> bool" where
  "anno_is_start NoAnno = False"
| "anno_is_start (Anno c p) = (c = ''start'')"

text \<open>\<open>self.annotations[k]["anno"] = a\<close> for a key that is present.\<close>

definition set_anno :: "int \<Rightarrow> anno \<Rightarrow> ('f, 's) Data \<Rightarrow> ('f, 's) Data" where
  "set_anno k a d = d\<lparr>annotations := AList.map_entry k (\<lambda>e. e\<lparr>anno := a\<rparr>) (annotations d)\<rparr>"

text \<open>
  add_annotation: two early returns, then the two assignments of the source, one after
  the other (lines 273 to 281, then lines 283 and 284).
\<close>

definition add_annotation :: "string \<Rightarrow> point \<Rightarrow> ('f, 's) Data \<Rightarrow> ('f, 's) Data" where
  "add_annotation command annotation d =
     (if get_frames_length d = 0 then d
      else let frame_idx = get_frames_length d - 1 in
        if \<not> has_key frame_idx d then d
        else
          let d1 =
                (case get_annotation frame_idx d of
                   Some e \<Rightarrow>
                     (let last_annotation = anno e in
                      if anno_is_start last_annotation
                      then set_anno frame_idx (Anno ''start'' annotation) d
                      else set_anno frame_idx (Anno command annotation) d)
                 | None \<Rightarrow>
                     d\<lparr>annotations := AList.update frame_idx
                        \<lparr>idx = None, org_idx = None, time_str = None,
                          anno = Anno command annotation, timestamp = None\<rparr> (annotations d)\<rparr>)
          in (case get_annotation frame_idx d1 of
                Some e1 \<Rightarrow>
                  (if anno_is_start (anno e1)
                   then set_anno frame_idx (Anno ''start'' annotation) d1
                   else set_anno frame_idx (Anno command annotation) d1)
              | None \<Rightarrow> set_anno frame_idx (Anno command annotation) d1))"

subsection \<open>Updating and cleaning\<close>

definition update_curr_frame :: "int \<Rightarrow> ('f, 's) Data \<Rightarrow> ('f, 's) Data" where
  "update_curr_frame frame d = d\<lparr>curr_frame := frame\<rparr>"

definition update_max_frames :: "int \<Rightarrow> ('f, 's) Data \<Rightarrow> ('f, 's) Data" where
  "update_max_frames frame d = d\<lparr>max_frames := frame\<rparr>"

text \<open>clean: the last assignment is to the attribute \<open>max_frame\<close>, not \<open>max_frames\<close>.\<close>

definition clean :: "('f, 's) Data \<Rightarrow> ('f, 's) Data" where
  "clean d = d\<lparr>frames := [], audio_data := [], annotations := [], annotations_metadata := None,
               curr_frame := 0, max_frame := Some 0\<rparr>"

subsection \<open>Gap reconciliation\<close>

text \<open>identify_video_gaps: the loop over \<open>range(1, len(self.frames))\<close>, from index i on.\<close>

function gaps_from :: "(rat \<times> int \<times> 'f) list \<Rightarrow> rat \<Rightarrow> nat \<Rightarrow> (rat \<times> rat) list \<Rightarrow> (rat \<times> rat) list" where
  "gaps_from fs threshold i video_gaps =
     (if i < length fs \<and> 1 \<le> i then
        (let previous_time = fst (fs ! (i - 1));
             current_time = fst (fs ! i)
         in gaps_from fs threshold (i + 1)
              (if current_time - previous_time > threshold
               then video_gaps @ [(previous_time, current_time)] else video_gaps))
      else video_gaps)"
  by pat_completeness auto
termination
  by (relation "measure (\<lambda>(fs, threshold, i, video_gaps). length fs - i)") auto

declare gaps_from.simps [simp del]

definition identify_video_gaps :: "('f, 's) Data \<Rightarrow> rat \<Rightarrow> (rat \<times> rat) list" where
  "identify_video_gaps d threshold = gaps_from (frames d) threshold 1 []"

text \<open>
  The two inner while loops of combined_audio over the cursor \<open>current_audio_index\<close>:
  the first appends the chunks before the limit, the second only advances.
\<close>

function keep_while ::
  "(rat \<times> 's ndarray) list \<Rightarrow> rat \<Rightarrow> 's ndarray list \<times> nat \<Rightarrow> 's ndarray list \<times> nat" where
  "keep_while ad bound (synced_audio, i) =
     (if i < length ad \<and> fst (ad ! i) < bound
      then keep_while ad bound (synced_audio @ [snd (ad ! i)], i + 1)
      else (synced_audio, i))"
  by pat_completeness auto
termination
  by (relation "measure (\<lambda>(ad, bound, synced_audio, i). length ad - i)") auto

declare keep_while.simps [simp del]

function skip_while :: "(rat \<times> 's ndarray) list \<Rightarrow> rat \<Rightarrow> nat \<Rightarrow> nat" where
  "skip_while ad bound i =
     (if i < length ad \<and> fst (ad ! i) < bound then skip_while ad bound (i + 1) else i)"
  by pat_completeness auto
termination
  by (relation "measure (\<lambda>(ad, bound, i). length ad - i)") auto

declare skip_while.simps [simp del]

text \<open>The for loop over the gaps.\<close>

fun over_gaps ::
  "(rat \<times> 's ndarray) list \<Rightarrow> (rat \<times> rat) list \<Rightarrow> 's ndarray list \<times> nat
     \<Rightarrow> 's ndarray list \<times> nat" where
  "over_gaps ad [] st = st"
| "over_gaps ad ((gap_start, gap_end) # gs) st =
     (let (synced_audio, i) = keep_while ad gap_start st
      in over_gaps ad gs (synced_audio, skip_while ad gap_end i))"

text \<open>The last while loop: every chunk from the cursor on is kept.\<close>

function keep_rest :: "(rat \<times> 's ndarray) list \<Rightarrow> 's ndarray list \<times> nat \<Rightarrow> 's ndarray list" where
  "keep_rest ad (synced_audio, i) =
     (if i < length ad then keep_rest ad (synced_audio @ [snd (ad ! i)], i + 1)
      else synced_audio)"
  by pat_completeness auto
termination
  by (relation "measure (\<lambda>(ad, synced_audio, i). length ad - i)") auto

declare keep_rest.simps [simp del]

text \<open>The list \<open>synced_audio\<close> when the loops of combined_audio are over.\<close>

definition synced_audio_of :: "('f, 's) Data \<Rightarrow> 's ndarray list" where
  "synced_audio_of d =
     keep_rest (audio_data d)
       (over_gaps (audio_data d) (identify_video_gaps d (1 / 10)) ([], 0))"

text \<open>
  \<open>np.concatenate(chunks, axis=0)\<close>: ValueError on an empty list of arrays, and
  ValueError when an array has not the number of columns of the first one; otherwise the
  rows of the arrays, one array after the other.
\<close>

definition np_concatenate :: "'s ndarray list \<Rightarrow> error + 's ndarray" where
  "np_concatenate chunks =
     (case chunks of
        [] \<Rightarrow> Inl ValueError
      | c # cs \<Rightarrow>
          (if list_all (\<lambda>a. ncols a = ncols c) cs
           then Inr \<lparr>ncols = ncols c, rows = concat (map rows chunks)\<rparr>
           else Inl ValueError))"

text \<open>\<open>np.array([])\<close>: the array with no row.\<close>

definition empty_array :: "'s ndarray" where
  "empty_array = \<lparr>ncols = 0, rows = []\<rparr>"

definition combined_audio :: "('f, 's) Data \<Rightarrow> error + 's ndarray" where
  "combined_audio d =
     (let synced_audio = synced_audio_of d
      in if synced_audio \<noteq> [] then np_concatenate synced_audio else Inr empty_array)"

section \<open>Frames and drawing\<close>

text \<open>
  A frame is a raster of an arbitrary type \<open>'r\<close> with its shape (height, width) and the
  drawing calls made on it so far, in order. \<open>cv2.line\<close> is always called with the colour
  (0, 0, 255) and the thickness 3, \<open>cv2.putText\<close> with the same font, scale, colour and
  thickness; only the points and the text are kept. \<open>frame.copy()\<close> is the identity on
  values.
\<close>

datatype draw_op = Line point point | PutText string point

record 'r frame =
  shape :: "int \<times> int"
  raster :: 'r
  drawn :: "draw_op list"

definition cv2_line :: "point \<Rightarrow> point \<Rightarrow> 'r frame \<Rightarrow> 'r frame" where
  "cv2_line a b fr = fr\<lparr>drawn := drawn fr @ [Line a b]\<rparr>"

definition cv2_putText :: "string \<Rightarrow> point \<Rightarrow> 'r frame \<Rightarrow> 'r frame" where
  "cv2_putText s pos fr = fr\<lparr>drawn := drawn fr @ [PutText s pos]\<rparr>"

text \<open>
  The loop \<open>for i in range(len(chunk) - 1): cv2.line(frame, chunk[i], chunk[i + 1], ...)\<close>.
\<close>

fun draw_chunk :: "point list \<Rightarrow> 'r frame \<Rightarrow> 'r frame" where
  "draw_chunk (a # b # rest) fr = draw_chunk (b # rest) (cv2_line a b fr)"
| "draw_chunk [a] fr = fr"
| "draw_chunk [] fr = fr"

subsection \<open>Python's str on integers, and the timer string\<close>

definition digit_char :: "nat \<Rightarrow> char" where
  "digit_char n = ''0123456789'' ! n"

function str_nat :: "nat \<Rightarrow> string" where
  "str_nat n = (if n < 10 then [digit_char n] else str_nat (n div 10) @ [digit_char (n mod 10)])"
  by pat_completeness auto
termination
  by (relation "measure (\<lambda>n. n)") auto

declare str_nat.simps [simp del]

definition py_str :: "int \<Rightarrow> string" where
  "py_str i = (if i < 0 then CHR ''-'' # str_nat (nat (- i)) else str_nat (nat i))"

text \<open>The format \<open>%02d\<close> on a number from 0 to 99.\<close>

definition pad2 :: "int \<Rightarrow> string" where
  "pad2 i = (if 0 \<le> i \<and> i < 10 then CHR ''0'' # py_str i else py_str i)"

text \<open>\<open>int(x)\<close> on a float: truncation towards zero.\<close>

definition py_int :: "rat \<Rightarrow> int" where
  "py_int q = (if q < 0 then - \<lfloor>- q\<rfloor> else \<lfloor>q\<rfloor>)"

text \<open>
  \<open>str(datetime.timedelta(milliseconds=ms)).split(".")[0]\<close>: the timedelta is normalised
  to days, seconds below 86400 and microseconds; its string is \<open>H:MM:SS\<close>, after
  \<open>D day(s), \<close> when the days are not zero, and the microseconds come after a dot, which
  the split drops.
\<close>

definition timedelta_str :: "int \<Rightarrow> string" where
  "timedelta_str ms =
     (let days = ms div 86400000;
          seconds = (ms mod 86400000) div 1000;
          mm = seconds div 60; ss = seconds mod 60;
          hh = mm div 60; mi = mm mod 60;
          s = py_str hh @ '':'' @ pad2 mi @ '':'' @ pad2 ss
      in if days \<noteq> 0
         then py_str days @ '' day'' @ (if \<bar>days\<bar> \<noteq> 1 then ''s'' else []) @ '', '' @ s
         else s)"

text \<open>draw_timer: the string, and the frame with the string put at its lower right.\<close>

definition draw_timer :: "'r frame \<Rightarrow> rat \<Rightarrow> string \<times> 'r frame" where
  "draw_timer fr elapsed_ms =
     (let tstr = timedelta_str (py_int elapsed_ms);
          position = (snd (shape fr) - 75, fst (shape fr) - 20)
      in (tstr, cv2_putText tstr position fr))"

section \<open>Capture: class VideoPlayer of src/player.py\<close>

text \<open>What the control window puts on the command queue.\<close>

datatype command = Pause | Seek int | Restart | OtherCommand string

datatype mouse_event = LButtonDown | MouseMove | LButtonUp | OtherEvent

text \<open>
  The attributes of a VideoPlayer that the capture loop reads or writes. Of the decoder
  \<open>cap\<close>, the cursor \<open>CAP_PROP_POS_FRAMES\<close> as \<open>cap.set\<close> leaves it and the total
  \<open>CAP_PROP_FRAME_COUNT\<close> are kept; what a read returns is an argument of the tick. The
  attributes \<open>pause_frame\<close> and \<open>last_frame_time\<close> do not exist before the first
  successful read (None). The progress bar is its counter \<open>n\<close> and its total.
\<close>

record ('r, 's) VideoPlayer =
  long_annotations :: bool
  annotation_chunk :: "point list"
  cap_pos_frames :: int
  cap_frame_count :: int
  frame :: "'r frame option"
  last_frame :: "'r frame option"
  start_point :: "point option"
  paused :: bool
  drawing :: bool
  curr_frame_idx :: int
  command_queue :: "command list"
  data :: "('r frame, 's) Data"
  pause_frame :: "'r frame option"
  last_frame_time :: "rat option"
  start_counter :: rat
  pbar_n :: int
  pbar_total :: int

text \<open>audio_callback at the clock reading \<open>now\<close> (start_counter is set by main_loop).\<close>

definition audio_callback ::
  "'s ndarray \<Rightarrow> rat \<Rightarrow> ('r, 's) VideoPlayer \<Rightarrow> ('r, 's) VideoPlayer" where
  "audio_callback indata now p = p\<lparr>data := add_audio_data (now - start_counter p) indata (data p)\<rparr>"

definition mouse_callback :: "mouse_event \<Rightarrow> int \<Rightarrow> int \<Rightarrow> ('r, 's) VideoPlayer \<Rightarrow> ('r, 's) VideoPlayer" where
  "mouse_callback event x y p =
     (if event = LButtonDown \<and> \<not> drawing p
      then p\<lparr>drawing := True, data := add_annotation ''start'' (x, y) (data p)\<rparr>
      else if event = MouseMove \<and> drawing p
      then p\<lparr>data := add_annotation ''move'' (x, y) (data p)\<rparr>
      else if event = LButtonUp \<and> drawing p
      then p\<lparr>drawing := False, data := add_annotation ''end'' (x, y) (data p)\<rparr>
      else p)"

text \<open>\<open>cv2.line(self.frame, a, b, ...)\<close>: an error when there is no frame.\<close>

definition line_on_frame :: "point \<Rightarrow> point \<Rightarrow> ('r, 's) VideoPlayer \<Rightarrow> error + ('r, 's) VideoPlayer" where
  "line_on_frame a b p =
     (case frame p of None \<Rightarrow> Inl TypeError | Some fr \<Rightarrow> Inr (p\<lparr>frame := Some (cv2_line a b fr)\<rparr>))"

definition chunk_on_frame :: "point list \<Rightarrow> ('r, 's) VideoPlayer \<Rightarrow> error + ('r, 's) VideoPlayer" where
  "chunk_on_frame chunk p =
     (if length chunk \<le> 1 then Inr p
      else case frame p of None \<Rightarrow> Inl TypeError
                         | Some fr \<Rightarrow> Inr (p\<lparr>frame := Some (draw_chunk chunk fr)\<rparr>))"

definition draw_move_annotations :: "point \<Rightarrow> ('r, 's) VideoPlayer \<Rightarrow> error + ('r, 's) VideoPlayer" where
  "draw_move_annotations pt p =
     (if long_annotations p
      then (let p1 = p\<lparr>annotation_chunk := annotation_chunk p @ [pt]\<rparr>
            in chunk_on_frame (annotation_chunk p1) p1)
      else (case (case start_point p of
                    Some sp \<Rightarrow> line_on_frame sp pt p
                  | None \<Rightarrow> Inr p) of
              Inl e \<Rightarrow> Inl e
            | Inr p1 \<Rightarrow> Inr (p1\<lparr>start_point := Some pt\<rparr>)))"

definition finalize_annotation_chunk :: "point \<Rightarrow> ('r, 's) VideoPlayer \<Rightarrow> error + ('r, 's) VideoPlayer" where
  "finalize_annotation_chunk pt p =
     (case (if long_annotations p then chunk_on_frame (annotation_chunk p) p
            else (case start_point p of
                    Some sp \<Rightarrow> line_on_frame sp pt p
                  | None \<Rightarrow> Inr p)) of
        Inl e \<Rightarrow> Inl e
      | Inr p1 \<Rightarrow> Inr (p1\<lparr>annotation_chunk := [], start_point := None\<rparr>))"

text \<open>
  draw_annotations: get_last_anno, then the largest key, both before the test. With
  "metadata" as the only key the largest key is a string, and the subtraction of the test
  is a TypeError when it is reached.
\<close>

definition draw_annotations :: "('r, 's) VideoPlayer \<Rightarrow> error + ('r, 's) VideoPlayer" where
  "draw_annotations p =
     (case get_last_anno (data p) of
        Inl e \<Rightarrow> Inl e
      | Inr annotation \<Rightarrow>
          (case max_key (data p) of
             Inl e \<Rightarrow> Inl e
           | Inr largest_key \<Rightarrow>
               (case annotation of
                  None \<Rightarrow> Inr p
                | Some NoAnno \<Rightarrow> Inr p
                | Some (Anno command pt) \<Rightarrow>
                    (case largest_key of
                       None \<Rightarrow> Inl TypeError
                     | Some k \<Rightarrow>
                         if \<bar>k - get_frames_length (data p)\<bar> \<le> 5 then
                           (if command = ''start''
                            then Inr (p\<lparr>start_point := Some pt, annotation_chunk := [pt]\<rparr>)
                            else if command = ''move'' then draw_move_annotations pt p
                            else if command = ''end'' then finalize_annotation_chunk pt p
                            else Inr p)
                         else Inr p))))"

subsection \<open>Commands\<close>

definition toggle_pause :: "('r, 's) VideoPlayer \<Rightarrow> ('r, 's) VideoPlayer" where
  "toggle_pause p = p\<lparr>paused := \<not> paused p\<rparr>"

definition seek :: "int \<Rightarrow> ('r, 's) VideoPlayer \<Rightarrow> ('r, 's) VideoPlayer" where
  "seek frame_number p =
     p\<lparr>cap_pos_frames := frame_number,
       data := update_curr_frame frame_number (data p),
       curr_frame_idx := frame_number\<rparr>"

text \<open>The loop \<open>while not self.command_queue.empty(): _ = self.command_queue.get()\<close>.\<close>

fun clear_queue :: "command list \<Rightarrow> command list" where
  "clear_queue [] = []"
| "clear_queue (c # q) = clear_queue q"

definition restart :: "('r, 's) VideoPlayer \<Rightarrow> ('r, 's) VideoPlayer" where
  "restart p =
     (let p1 = p\<lparr>paused := False, drawing := False\<rparr>;
          p2 = p1\<lparr>cap_pos_frames := 0\<rparr>;
          p3 = p2\<lparr>data := clean (data p2)\<rparr>;
          p4 = p3\<lparr>data := update_max_frames (cap_frame_count p3) (data p3)\<rparr>;
          p5 = p4\<lparr>command_queue := clear_queue (command_queue p4)\<rparr>
      in p5\<lparr>pbar_n := 0, pbar_total := cap_frame_count p5\<rparr>)"

text \<open>handle_commands: at most one command is taken; an empty queue is passed over.\<close>

definition handle_commands :: "('r, 's) VideoPlayer \<Rightarrow> ('r, 's) VideoPlayer" where
  "handle_commands p =
     (case command_queue p of
        [] \<Rightarrow> p
      | c # q \<Rightarrow>
          (let p1 = p\<lparr>command_queue := q\<rparr>
           in case c of
                Pause \<Rightarrow> toggle_pause p1
              | Seek n \<Rightarrow> seek n p1
              | Restart \<Rightarrow> restart p1
              | OtherCommand s \<Rightarrow> p1))"

subsection \<open>One tick of the capture loop\<close>

text \<open>
  The part of process_video_frame that sets \<open>self.frame\<close> and \<open>current_time\<close>. A read of
  the decoder is \<open>None\<close> when it fails and otherwise the frame with the values of
  \<open>CAP_PROP_POS_FRAMES\<close> and \<open>CAP_PROP_POS_MSEC\<close> the decoder reports after it.
\<close>

definition read_frame ::
  "('r frame \<times> int \<times> rat) option \<Rightarrow> ('r, 's) VideoPlayer \<Rightarrow> error + ('r, 's) VideoPlayer \<times> rat" where
  "read_frame rd p =
     (if \<not> paused p then
        (case rd of
           None \<Rightarrow>
             (case last_frame p of
                None \<Rightarrow> Inl AttributeError
              | Some lf \<Rightarrow>
                  (case last_frame_time p of
                     None \<Rightarrow> Inl AttributeError
                   | Some t \<Rightarrow> Inr (p\<lparr>frame := Some lf\<rparr>, t)))
         | Some (fr, pos, msec) \<Rightarrow>
             Inr (p\<lparr>frame := Some fr, curr_frame_idx := pos, pause_frame := Some fr,
                   last_frame_time := Some msec\<rparr>, msec))
      else
        (case pause_frame p of
           None \<Rightarrow> Inl AttributeError
         | Some pf \<Rightarrow>
             (case last_frame_time p of
                None \<Rightarrow> Inl AttributeError
              | Some t \<Rightarrow> Inr (p\<lparr>frame := Some pf\<rparr>, t))))"

text \<open>
  process_video_frame at the clock reading \<open>now\<close> of \<open>t.perf_counter()\<close>. Showing the
  frame, the key wait and the sleep of manage_frame_delay change nothing here.
\<close>

definition process_video_frame ::
  "('r frame \<times> int \<times> rat) option \<Rightarrow> rat \<Rightarrow> ('r, 's) VideoPlayer \<Rightarrow> error + ('r, 's) VideoPlayer" where
  "process_video_frame rd now p0 =
     (case read_frame rd (handle_commands p0) of
        Inl e \<Rightarrow> Inl e
      | Inr (p1, current_time) \<Rightarrow>
          (case (if drawing p1 then draw_annotations p1 else Inr p1) of
             Inl e \<Rightarrow> Inl e
           | Inr p2 \<Rightarrow>
               (case frame p2 of
                  None \<Rightarrow> Inl AttributeError
                | Some fr \<Rightarrow>
                    (let (tstr, fr1) = draw_timer fr current_time;
                         p3 = p2\<lparr>frame := Some fr1\<rparr>
                     in case pause_frame p3 of
                          None \<Rightarrow> Inl AttributeError
                        | Some pf \<Rightarrow>
                            Inr (p3\<lparr>data := add_curr_frame (curr_frame_idx p3) (pbar_n p3) pf tstr
                                               (now - start_counter p3) (data p3),
                                     pbar_n := pbar_n p3 + 1\<rparr>)))))"

section \<open>Saving: the last methods of class Data\<close>

text \<open>
  \<open>s.replace(old, new)\<close> for a non-empty \<open>old\<close>: every occurrence from the left, without
  overlap. (The source only replaces the literal ".mp4".)
\<close>

function str_replace :: "string \<Rightarrow> string \<Rightarrow> string \<Rightarrow> string" where
  "str_replace old new s =
     (if s = [] \<or> old = [] then s
      else if take (length old) s = old then new @ str_replace old new (drop (length old) s)
      else hd s # str_replace old new (tl s))"
  by pat_completeness auto
termination
  by (relation "measure (\<lambda>(old, new, s). length s)") (auto simp: Suc_le_eq)

declare str_replace.simps [simp del]

text \<open>
  What json.load reads back from what json.dump wrote for the annotations dict: an object
  whose keys are strings, \<open>str(k)\<close> for an integer key k, with the entry or the metadata
  under each key. The text of the file between the two is not modelled.
\<close>

datatype persisted = PFrame anno_entry | PMeta metadata

type_synonym json_doc = "(string \<times> persisted) list"

definition dumped :: "('f, 's) Data \<Rightarrow> json_doc" where
  "dumped d =
     map (\<lambda>(k, e). (py_str k, PFrame e)) (annotations d) @
     (case annotations_metadata d of None \<Rightarrow> [] | Some m \<Rightarrow> [(''metadata'', PMeta m)])"

text \<open>
  The files on disk, by path, and what the save sequence did, in order. The outcomes of
  the calls that leave the program are given by \<open>env\<close>: the directory the dialog
  returns, whether scipy's write and os.makedirs raise, whether \<open>subprocess.run\<close> raises
  (\<open>Inl\<close>: ffmpeg cannot be started) or returns with ffmpeg's exit status (\<open>Inr\<close>), and
  whether writing the JSON file raises. ffmpeg is taken to leave its output file when
  its exit status is 0. The progress window that save_data passes counts as true.
\<close>

datatype ('f, 's) content = Video "'f list" | Audio "'s ndarray" | Muxed | Json json_doc

datatype event =
    WroteVideo string | WroteAudio string | RanMux string string string int
  | Removed string | JsonAttempt string | JsonWritten string

record env =
  ask_directory :: string
  wav_write :: "error option"
  makedirs :: "error option"
  ffmpeg :: "error + int"
  json_write :: "error option"

record ('f, 's) saver =
  sdata :: "('f, 's) Data"
  files :: "string \<Rightarrow> ('f, 's) content option"
  events :: "event list"

text \<open>
  The loop of process_video_data over \<open>enumerate(self.frames)\<close>: a frame whose index
  is below max_frames is written and the progress set to \<open>idx / last_index\<close>, a
  ZeroDivisionError when last_index is 0. The writer has opened its file by then, and
  the exception leaves the file behind without the frames.
\<close>

fun write_frames ::
  "int \<Rightarrow> int \<Rightarrow> int \<Rightarrow> (rat \<times> int \<times> 'f) list \<Rightarrow> 'f list \<Rightarrow> error + 'f list" where
  "write_frames last_index mx i [] out = Inr out"
| "write_frames last_index mx i ((ts, index, fr) # rest) out =
     (if index < mx
      then (if last_index = 0 then Inl ZeroDivisionError
            else write_frames last_index mx (i + 1) rest (out @ [fr]))
      else write_frames last_index mx (i + 1) rest out)"

definition process_video_data :: "env \<Rightarrow> ('f, 's) saver \<Rightarrow> error option \<times> ('f, 's) saver" where
  "process_video_data en st =
     (let d = sdata st in
      if frames d = [] then (None, st)
      else
        (case write_frames (int (length (frames d)) - 1) (max_frames d) 0 (frames d) [] of
           Inl e \<Rightarrow>
             (Some e, st\<lparr>files := (files st)(out_file_path d \<mapsto> Video [])\<rparr>)
         | Inr written \<Rightarrow>
             (None, st\<lparr>files := (files st)(out_file_path d \<mapsto> Video written),
                        events := events st @ [WroteVideo (out_file_path d)]\<rparr>)))"

definition process_audio_data :: "env \<Rightarrow> ('f, 's) saver \<Rightarrow> error option \<times> ('f, 's) saver" where
  "process_audio_data en st =
     (let d = sdata st in
      if length (audio_data d) > 0 then
        (case combined_audio d of
           Inl e \<Rightarrow> (Some e, st)
         | Inr samples \<Rightarrow>
             (case wav_write en of
                Some e \<Rightarrow> (Some e, st)
              | None \<Rightarrow>
                  (None, st\<lparr>files := (files st)(audio_path d \<mapsto> Audio samples),
                             events := events st @ [WroteAudio (audio_path d)]\<rparr>)))
      else (None, st))"

text \<open>\<open>if os.path.exists(path): os.remove(path)\<close>.\<close>

definition remove_if_exists :: "string \<Rightarrow> ('f, 's) saver \<Rightarrow> ('f, 's) saver" where
  "remove_if_exists path st =
     (if files st path \<noteq> None
      then st\<lparr>files := (files st)(path := None), events := events st @ [Removed path]\<rparr>
      else st)"

text \<open>
  save_av_and_clean: \<open>subprocess.run\<close> is called without \<open>check\<close>, so the exit status
  of ffmpeg is not looked at.
\<close>

definition save_av_and_clean :: "env \<Rightarrow> ('f, 's) saver \<Rightarrow> error option \<times> ('f, 's) saver" where
  "save_av_and_clean en st =
     (let d = sdata st;
          target = str_replace ''.mp4'' ''_annotated.mp4'' (out_file_path d)
      in case makedirs en of
           Some e \<Rightarrow> (Some e, st)
         | None \<Rightarrow>
             (case ffmpeg en of
                Inl e \<Rightarrow> (Some e, st)
              | Inr status \<Rightarrow>
                  (let st1 = st\<lparr>files := (if status = 0 then (files st)(target \<mapsto> Muxed) else files st),
                                 events := events st @
                                   [RanMux (out_file_path d) (audio_path d) target status]\<rparr>;
                       st2 = remove_if_exists (out_file_path d) st1;
                       st3 = remove_if_exists (audio_path d) st2
                   in (None, st3))))"

text \<open>The first statement of save_annotations.\<close>

definition set_metadata :: "('f, 's) Data \<Rightarrow> ('f, 's) Data" where
  "set_metadata d =
     d\<lparr>annotations_metadata := Some
        \<lparr>md_video_name = name d, md_frame_rate = frame_rate d, md_frame_count = max_frames d,
          md_frame_width = frame_width d, md_frame_height = frame_height d,
          md_sample_rate = sample_rate d, md_channels = channels d\<rparr>\<rparr>"

text \<open>save_annotations: an exception of the write is caught and logged.\<close>

definition save_annotations :: "env \<Rightarrow> ('f, 's) saver \<Rightarrow> error option \<times> ('f, 's) saver" where
  "save_annotations en st =
     (let d = set_metadata (sdata st);
          path = str_replace ''.mp4'' ''_annotated.json'' (out_file_path d);
          st1 = st\<lparr>sdata := d, events := events st @ [JsonAttempt path]\<rparr>
      in case json_write en of
           Some e \<Rightarrow> (None, st1)
         | None \<Rightarrow>
             (None, st1\<lparr>files := (files st1)(path \<mapsto> Json (dumped d)),
                         events := events st1 @ [JsonWritten path]\<rparr>))"

text \<open>One stage after another; an exception of a stage ends the sequence.\<close>

definition and_then ::
  "error option \<times> 'a \<Rightarrow> ('a \<Rightarrow> error option \<times> 'a) \<Rightarrow> error option \<times> 'a" where
  "and_then r stage = (case r of (Some e, st) \<Rightarrow> (Some e, st) | (None, st) \<Rightarrow> stage st)"

text \<open>\<open>if not self.out_path: self.out_path = filedialog.askdirectory(...)\<close>.\<close>

definition ask_out_path :: "env \<Rightarrow> ('f, 's) saver \<Rightarrow> ('f, 's) saver" where
  "ask_out_path en st =
     (if out_path (sdata st) = []
      then st\<lparr>sdata := (sdata st)\<lparr>out_path := ask_directory en\<rparr>\<rparr> else st)"

definition save_data :: "env \<Rightarrow> ('f, 's) saver \<Rightarrow> error option \<times> ('f, 's) saver" where
  "save_data en st =
     and_then (and_then (and_then (process_video_data en (ask_out_path en st))
       (process_audio_data en)) (save_av_and_clean en)) (save_annotations en)"

section \<open>Playback: class AnnotatedPlayer of src/player.py\<close>

record AnnotatedPlayer =
  ap_long_annotations :: bool
  ap_annotation_chunk :: "point list"
  meta :: json_doc
  ap_last_point :: "point option"

text \<open>load_metadata: json.load on the file at the path.\<close>

definition load_metadata :: "string \<Rightarrow> (string \<Rightarrow> ('f, 's) content option) \<Rightarrow> error + json_doc" where
  "load_metadata meta_file fs =
     (case fs meta_file of
        None \<Rightarrow> Inl OSError
      | Some (Json doc) \<Rightarrow> Inr doc
      | Some other \<Rightarrow> Inl ValueError)"

definition ap_draw_move_annotations ::
  "'r frame \<Rightarrow> point \<Rightarrow> AnnotatedPlayer \<Rightarrow> AnnotatedPlayer \<times> 'r frame" where
  "ap_draw_move_annotations fr pt ap =
     (let (ap1, fr1) =
            (if ap_long_annotations ap
             then (let ap0 = ap\<lparr>ap_annotation_chunk := ap_annotation_chunk ap @ [pt]\<rparr>
                   in (ap0, draw_chunk (ap_annotation_chunk ap0) fr))
             else (ap\<lparr>ap_annotation_chunk := [pt]\<rparr>,
                   (if ap_annotation_chunk ap \<noteq> []
                    then cv2_line (last (ap_annotation_chunk ap)) pt fr else fr)))
      in (ap1\<lparr>ap_last_point := Some pt\<rparr>, fr1))"

definition ap_finalize_annotation_chunk ::
  "'r frame \<Rightarrow> point \<Rightarrow> AnnotatedPlayer \<Rightarrow> AnnotatedPlayer \<times> 'r frame" where
  "ap_finalize_annotation_chunk fr pt ap =
     (let fr1 = (if ap_annotation_chunk ap \<noteq> [] then draw_chunk (ap_annotation_chunk ap) fr else fr)
      in (ap\<lparr>ap_annotation_chunk := [], ap_last_point := None\<rparr>, fr1))"

definition ap_draw_annotations ::
  "'r frame \<Rightarrow> string \<times> point \<Rightarrow> AnnotatedPlayer \<Rightarrow> AnnotatedPlayer \<times> 'r frame" where
  "ap_draw_annotations fr a ap =
     (let (command, pt) = a in
      if command = ''start'' then (ap\<lparr>ap_annotation_chunk := [pt]\<rparr>, fr)
      else if command = ''move'' then ap_draw_move_annotations fr pt ap
      else if command = ''end'' then ap_finalize_annotation_chunk fr pt ap
      else (ap, fr))"

definition draw_time :: "'r frame \<Rightarrow> string \<Rightarrow> 'r frame" where
  "draw_time fr tstr = cv2_putText tstr (snd (shape fr) - 75, fst (shape fr) - 20) fr"

text \<open>
  The body of process_frame for the value found under \<open>str(frame_number)\<close>: the stroke
  is replayed when "anno" is not empty, the label drawn when "time_str" is neither None
  nor empty.
\<close>

definition replay_entry ::
  "anno_entry \<Rightarrow> 'r frame \<Rightarrow> AnnotatedPlayer \<Rightarrow> AnnotatedPlayer \<times> 'r frame" where
  "replay_entry frame_data fr ap =
     (let (ap1, fr1) =
            (case anno frame_data of
               NoAnno \<Rightarrow> (ap, fr)
             | Anno command pt \<Rightarrow> ap_draw_annotations fr (command, pt) ap)
      in case time_str frame_data of
           None \<Rightarrow> (ap1, fr1)
         | Some tstr \<Rightarrow> (if tstr \<noteq> [] then (ap1, draw_time fr1 tstr) else (ap1, fr1)))"

text \<open>process_frame: a KeyError when the value found has no key "anno".\<close>

definition process_frame ::
  "'r frame \<Rightarrow> int \<Rightarrow> AnnotatedPlayer \<Rightarrow> error + AnnotatedPlayer \<times> 'r frame" where
  "process_frame fr frame_number ap =
     (case map_of (meta ap) (py_str frame_number) of
        None \<Rightarrow> Inr (ap, fr)
      | Some (PMeta m) \<Rightarrow> Inl KeyError
      | Some (PFrame frame_data) \<Rightarrow> Inr (replay_entry frame_data fr ap))"

text \<open>
  The loop of show over the reads of the decoder, each a frame with the value of
  \<open>CAP_PROP_POS_FRAMES\<close> after it and whether the key q is pressed while it is shown. The
  result is the frames shown, in order; the loop ends with the reads, or at the key.
\<close>

fun show_loop ::
  "('r frame \<times> int \<times> bool) list \<Rightarrow> AnnotatedPlayer \<Rightarrow> 'r frame list \<Rightarrow> error + 'r frame list" where
  "show_loop [] ap shown = Inr shown"
| "show_loop ((fr, frame_number, quit) # reads) ap shown =
     (case process_frame fr frame_number ap of
        Inl e \<Rightarrow> Inl e
      | Inr (ap1, fr1) \<Rightarrow>
          (if quit then Inr (shown @ [fr1]) else show_loop reads ap1 (shown @ [fr1])))"

text \<open>
  What an OpenCV capture opened on a video of the given frames returns, read after read,
  from the cursor \<open>pos\<close> on: \<open>CAP_PROP_POS_FRAMES\<close> is the index, from 0, of the frame
  to be decoded next, so after the read of the frame at the index j it is j + 1.
\<close>

fun cap_reads :: "int \<Rightarrow> 'r frame list \<Rightarrow> ('r frame \<times> int \<times> bool) list" where
  "cap_reads pos [] = []"
| "cap_reads pos (fr # video) = (fr, pos + 1, False) # cap_reads (pos + 1) video"

text \<open>show on a video played from its first frame to its end, with no key pressed.\<close>

definition show_video :: "'r frame list \<Rightarrow> AnnotatedPlayer \<Rightarrow> error + 'r frame list" where
  "show_video video ap = show_loop (cap_reads 0 video) ap []"

section \<open>Sequences of appends\<close>

text \<open>
  The arguments of one call of add_curr_frame (org_frame_idx, frame_idx, frame, time_str,
  timestamp), and a sequence of such calls on a store, first call first.
\<close>

type_synonym 'f frame_call = "int \<times> int \<times> 'f \<times> string \<times> rat"

fun add_frames :: "'f frame_call list \<Rightarrow> ('f, 's) Data \<Rightarrow> ('f, 's) Data" where
  "add_frames [] d = d"
| "add_frames ((org, i, fr, s, t) # calls) d = add_frames calls (add_curr_frame org i fr s t d)"

text \<open>
  Frames and annotation entries in lockstep: the integer keys of the annotations are the
  positions of the frame list, in order.
\<close>

definition lockstep :: "('f, 's) Data \<Rightarrow> bool" where
  "lockstep d = (map fst (annotations d) = map int [0..<length (frames d)])"

section \<open>An example session\<close>

text \<open>A store as Data.__init__ leaves it for a video of 100 frames at 30 frames a second.\<close>

definition demo_data :: "(nat frame, int) Data" where
  "demo_data =
     Data_init ''in'' ''out'' ''clip.mp4'' ''in/clip.mp4'' ''out/'' ''clip_annotated.mp4''
       ''out/clip_annotated.mp4'' ''clip.wav'' ''out/clip.wav'' 640 480 30 100 44100 2"

definition demo_frame :: "nat \<Rightarrow> nat frame" where
  "demo_frame n = \<lparr>shape = (480, 640), raster = n, drawn = []\<rparr>"

text \<open>Three appends: the decoder index skips from 0 to 7 and then repeats.\<close>

definition demo_calls :: "nat frame frame_call list" where
  "demo_calls =
     [(1, 0, demo_frame 0, ''0:00:00'', 0),
      (8, 7, demo_frame 7, ''0:00:00'', 1 / 10),
      (8, 7, demo_frame 7, ''0:00:00'', 2 / 10)]"

text \<open>The store after one append, with no stroke on its frame.\<close>

definition demo_one_frame :: "(nat frame, int) Data" where
  "demo_one_frame = add_curr_frame 1 0 (demo_frame 0) ''0:00:00'' 0 demo_data"

text \<open>A player in its capture loop, with a first frame read and nothing captured yet.\<close>

definition demo_player :: "bool \<Rightarrow> (nat, int) VideoPlayer" where
  "demo_player long =
     \<lparr>long_annotations = long, annotation_chunk = [], cap_pos_frames = 1,
       cap_frame_count = 100, frame = Some (demo_frame 0), last_frame = Some (demo_frame 99),
       start_point = None, paused = False, drawing = False, curr_frame_idx = 1,
       command_queue = [], data = demo_data, pause_frame = Some (demo_frame 0),
       last_frame_time = Some 0, start_counter = 0, pbar_n = 0, pbar_total = 100\<rparr>"

text \<open>
  A stroke of two points as the capture loop draws it: a frame is appended, the button
  goes down at \<open>p0\<close>, the next tick draws; a second frame is appended, the button goes
  up at \<open>p1\<close>, and the stroke is drawn on a fresh frame. The result is the list of the
  drawing calls on that frame.
\<close>

definition two_point_stroke :: "bool \<Rightarrow> point \<Rightarrow> point \<Rightarrow> error + draw_op list" where
  "two_point_stroke long p0 p1 =
     (let a = demo_player long;
          b = a\<lparr>data := add_annotation ''start'' p0
                  (add_curr_frame 1 0 (demo_frame 0) ''0:00:00'' 0 (data a))\<rparr>
      in case draw_annotations b of
           Inl e \<Rightarrow> Inl e
         | Inr c \<Rightarrow>
             (let f = c\<lparr>frame := Some (demo_frame 1),
                        data := add_annotation ''end'' p1
                          (add_curr_frame 2 1 (demo_frame 1) ''0:00:00'' (1 / 30) (data c))\<rparr>
              in case draw_annotations f of
                   Inl e \<Rightarrow> Inl e
                 | Inr g \<Rightarrow> (case frame g of None \<Rightarrow> Inl AttributeError
                                          | Some fr \<Rightarrow> Inr (drawn fr))))"

text \<open>
  What a tick leaves to look at: the elapsed-time labels of the annotation entries, and
  the drawing calls on the frame shown.
\<close>

definition labels_after :: "error + ('r, 's) VideoPlayer \<Rightarrow> error + string option list" where
  "labels_after r =
     (case r of Inl e \<Rightarrow> Inl e
              | Inr p \<Rightarrow> Inr (map (time_str \<circ> snd) (annotations (data p))))"

definition drawn_after :: "error + ('r, 's) VideoPlayer \<Rightarrow> error + draw_op list" where
  "drawn_after r =
     (case r of Inl e \<Rightarrow> Inl e
              | Inr p \<Rightarrow> (case frame p of None \<Rightarrow> Inr [] | Some fr \<Rightarrow> Inr (drawn fr)))"

text \<open>One tick: the decoder reports 5000 ms for the frame it reads, one second after the start.\<close>

definition demo_tick_result :: "(nat, int) VideoPlayer" where
  "demo_tick_result =
     (demo_player False)\<lparr>frame := Some (cv2_putText ''0:00:05'' (565, 460) (demo_frame 1)),
       curr_frame_idx := 150, pause_frame := Some (demo_frame 1), last_frame_time := Some 5000,
       data := add_curr_frame 150 0 (demo_frame 1) ''0:00:05'' 1 demo_data, pbar_n := 1\<rparr>"

text \<open>
  A store of two frames and one audio chunk about to be saved on an empty disk, where
  ffmpeg runs and fails with exit status 1, and where ffmpeg cannot be started.
\<close>

definition demo_saver :: "(nat frame, int) saver" where
  "demo_saver =
     \<lparr>sdata = add_audio_data 0 \<lparr>ncols = 2, rows = [1, 2, 3]\<rparr>
                (add_frames (take 2 demo_calls) demo_data),
       files = (\<lambda>path. None), events = []\<rparr>"

definition demo_env :: "error + int \<Rightarrow> env" where
  "demo_env mux =
     \<lparr>ask_directory = ''out'', wav_write = None, makedirs = None, ffmpeg = mux,
       json_write = None\<rparr>"

text \<open>The disk and the events when the video and the audio of this store are written.\<close>

definition demo_written :: "(nat frame, int) saver" where
  "demo_written =
     demo_saver\<lparr>files := (\<lambda>path. None)
                   (''out/clip_annotated.mp4'' \<mapsto> Video [demo_frame 0, demo_frame 7],
                    ''out/clip.wav'' \<mapsto> Audio \<lparr>ncols = 2, rows = [1, 2, 3]\<rparr>),
                 events := [WroteVideo ''out/clip_annotated.mp4'', WroteAudio ''out/clip.wav'']\<rparr>"

text \<open>
  A capture of two frames: the button goes down at (3, 4) on the first frame and up at
  (5, 6) on the second. The store is about to be saved on an empty disk; the video that
  goes with it has the two frames.
\<close>

definition demo_timeline :: "(nat frame, int) Data" where
  "demo_timeline =
     add_annotation ''end'' (5, 6)
       (add_curr_frame 2 1 (demo_frame 1) ''0:00:01'' 1
          (add_annotation ''start'' (3, 4) demo_one_frame))"

definition demo_json_saver :: "(nat frame, int) saver" where
  "demo_json_saver = \<lparr>sdata = demo_timeline, files = (\<lambda>path. None), events = []\<rparr>"

definition demo_doc :: json_doc where
  "demo_doc =
     [(''0'', PFrame \<lparr>idx = Some 0, org_idx = Some 1, time_str = Some ''0:00:00'',
                      anno = Anno ''start'' (3, 4), timestamp = Some 0\<rparr>),
      (''1'', PFrame \<lparr>idx = Some 1, org_idx = Some 2, time_str = Some ''0:00:01'',
                      anno = Anno ''end'' (5, 6), timestamp = Some 1\<rparr>),
      (''metadata'', PMeta \<lparr>md_video_name = ''clip.mp4'', md_frame_rate = 30,
                           md_frame_count = 100, md_frame_width = 640, md_frame_height = 480,
                           md_sample_rate = 44100, md_channels = 2\<rparr>)]"

definition demo_ap :: AnnotatedPlayer where
  "demo_ap =
     \<lparr>ap_long_annotations = False, ap_annotation_chunk = [], meta = [], ap_last_point = None\<rparr>"



text \<open>The same stroke as the annotated player replays it on one frame.\<close>

definition ap_two_point_stroke :: "bool \<Rightarrow> point \<Rightarrow> point \<Rightarrow> draw_op list" where
  "ap_two_point_stroke long p0 p1 =
     (let ap = \<lparr>ap_long_annotations = long, ap_annotation_chunk = [], meta = [],
                ap_last_point = None\<rparr>;
          (ap1, fr1) = ap_draw_annotations (demo_frame 0) (''start'', p0) ap;
          (ap2, fr2) = ap_draw_annotations (demo_frame 1) (''end'', p1) ap1
      in drawn fr2)"

section \<open>Properties of the timeline store\<close>

lemma clear_queue_empty: "clear_queue q = []"
  by (induction q) simp_all

text \<open>
  C1. Frames at the timestamps 0.0, 0.05, 0.3, 0.35 and audio chunks at 0.0, 0.04, 0.1, 0.2,
  0.32, 0.4: identify_video_gaps with the threshold 0.1 returns the one gap (0.05, 0.3),
  the chunks kept are those at 0.0, 0.04, 0.32 and 0.4 in this order, whatever the decoder
  indices, the rasters and the chunks are, and combined_audio returns their
  concatenation: for chunks of one stream, which have the same number of columns, the
  array of their rows in this order.
\<close>

theorem gap_scenario:
  "identify_video_gaps
     (d\<lparr>frames := [(0, i0, f0), (0.05, i1, f1), (0.3, i2, f2), (0.35, i3, f3)],
        audio_data := [(0, c0), (0.04, c1), (0.1, c2), (0.2, c3), (0.32, c4), (0.4, c5)]\<rparr>) 0.1
     = [(0.05, 0.3)]
   \<and> synced_audio_of
       (d\<lparr>frames := [(0, i0, f0), (0.05, i1, f1), (0.3, i2, f2), (0.35, i3, f3)],
          audio_data := [(0, c0), (0.04, c1), (0.1, c2), (0.2, c3), (0.32, c4), (0.4, c5)]\<rparr>)
     = [c0, c1, c4, c5]
   \<and> combined_audio
       (d\<lparr>frames := [(0, i0, f0), (0.05, i1, f1), (0.3, i2, f2), (0.35, i3, f3)],
          audio_data := [(0, c0), (0.04, c1), (0.1, c2), (0.2, c3), (0.32, c4), (0.4, c5)]\<rparr>)
     = np_concatenate [c0, c1, c4, c5]
   \<and> combined_audio
       (d\<lparr>frames := [(0, i0, f0), (0.05, i1, f1), (0.3, i2, f2), (0.35, i3, f3)],
          audio_data := [(0, \<lparr>ncols = n, rows = r0\<rparr>), (0.04, \<lparr>ncols = n, rows = r1\<rparr>),
                         (0.1, \<lparr>ncols = n2, rows = r2\<rparr>), (0.2, \<lparr>ncols = n3, rows = r3\<rparr>),
                         (0.32, \<lparr>ncols = n, rows = r4\<rparr>), (0.4, \<lparr>ncols = n, rows = r5\<rparr>)]\<rparr>)
     = Inr \<lparr>ncols = n, rows = r0 @ r1 @ r4 @ r5\<rparr>"
  by (simp add: combined_audio_def np_concatenate_def synced_audio_of_def
      identify_video_gaps_def gaps_from.simps keep_while.simps skip_while.simps keep_rest.simps)

subsection \<open>Appends keep frames and annotations in lockstep\<close>

lemma update_absent: "k \<notin> fst ` set al \<Longrightarrow> AList.update k v al = al @ [(k, v)]"
  by (induction al) auto

lemma add_curr_frame_frames:
  "frames (add_curr_frame org i fr s t d) = frames d @ [(t, i, fr)]"
  by (simp add: add_curr_frame_def Let_def increment_max_frame_def)

lemma add_curr_frame_lockstep:
  assumes "lockstep d"
  shows "annotations (add_curr_frame org i fr s t d) =
           annotations d @ [(int (length (frames d)),
             \<lparr>idx = Some i, org_idx = Some org, time_str = Some s, anno = NoAnno,
               timestamp = Some t\<rparr>)]"
proof -
  have "int (length (frames d)) \<notin> fst ` set (annotations d)"
  proof -
    have "fst ` set (annotations d) = set (map int [0..<length (frames d)])"
      using assms by (metis lockstep_def set_map)
    then show ?thesis by auto
  qed
  then show ?thesis
    by (simp add: add_curr_frame_def Let_def increment_max_frame_def has_key_def
        new_frame_idx_def get_frames_length_def update_absent)
qed

lemma lockstep_add_curr_frame: "lockstep d \<Longrightarrow> lockstep (add_curr_frame org i fr s t d)"
  by (simp add: lockstep_def [of "add_curr_frame org i fr s t d"] add_curr_frame_lockstep
      add_curr_frame_frames) (simp add: lockstep_def)

lemma add_curr_frame_other_keys:
  "j \<noteq> int (length (frames d)) \<Longrightarrow>
   map_of (annotations (add_curr_frame org i fr s t d)) j = map_of (annotations d) j"
  by (simp add: add_curr_frame_def Let_def increment_max_frame_def has_key_def
      new_frame_idx_def get_frames_length_def update_conv' map_of_map_entry)

lemma add_frames_snoc:
  "add_frames (calls @ [(org, i, fr, s, t)]) d = add_curr_frame org i fr s t (add_frames calls d)"
  by (induction calls arbitrary: d) auto

lemma add_frames_lockstep:
  "lockstep d \<Longrightarrow>
   lockstep (add_frames calls d)
   \<and> length (frames (add_frames calls d)) = length (frames d) + length calls"
proof (induction calls arbitrary: d)
  case Nil
  then show ?case by simp
next
  case (Cons c calls)
  obtain org i fr s t where c: "c = (org, i, fr, s, t)" by (cases c) auto
  have "lockstep (add_curr_frame org i fr s t d)"
    using Cons.prems by (rule lockstep_add_curr_frame)
  from Cons.IH [OF this] show ?case by (simp add: c add_curr_frame_frames)
qed

text \<open>
  C2. From an empty store, after the first k of any sequence of calls of add_curr_frame
  the store holds k frames and the annotation keys are 0, ..., k - 1, each once and in this
  order; call number k (from 0) appends its frame and creates the one entry under the key
  k. On any store, a call leaves the entries under all keys but the new index as they
  were.
\<close>

theorem monotonic_indexing_lockstep:
  assumes "frames d = []" and "annotations d = []"
  shows "(\<forall>k\<le>length calls.
            get_frames_length (add_frames (take k calls) d) = int k
          \<and> map fst (annotations (add_frames (take k calls) d)) = map int [0..<k]
          \<and> set (map fst (annotations (add_frames (take k calls) d))) = {0..<int k}
          \<and> distinct (map fst (annotations (add_frames (take k calls) d)))
          \<and> (k < length calls \<longrightarrow>
               (case calls ! k of (org, i, fr, s, t) \<Rightarrow>
                  frames (add_frames (take (Suc k) calls) d) =
                    frames (add_frames (take k calls) d) @ [(t, i, fr)]
                \<and> annotations (add_frames (take (Suc k) calls) d) =
                    annotations (add_frames (take k calls) d) @
                      [(int k, \<lparr>idx = Some i, org_idx = Some org, time_str = Some s,
                                anno = NoAnno, timestamp = Some t\<rparr>)])))
       \<and> (\<forall>org i fr s t (e :: ('f, 's) Data) j. j \<noteq> int (length (frames e)) \<longrightarrow>
            map_of (annotations (add_curr_frame org i fr s t e)) j = map_of (annotations e) j)"
proof (intro conjI allI impI)
  fix k assume k: "k \<le> length calls"
  let ?dk = "add_frames (take k calls) d"
  have l0: "lockstep d" using assms by (simp add: lockstep_def)
  from add_frames_lockstep [OF l0, of "take k calls"] k assms
  have lk: "lockstep ?dk" and len: "length (frames ?dk) = k" by simp_all
  show "get_frames_length ?dk = int k" by (simp add: get_frames_length_def len)
  show keys: "map fst (annotations ?dk) = map int [0..<k]"
    using lk len by (simp add: lockstep_def)
  show "set (map fst (annotations ?dk)) = {0..<int k}"
    unfolding keys by (simp add: image_int_atLeastLessThan)
  show "distinct (map fst (annotations ?dk))"
    unfolding keys by (simp add: distinct_map)
  assume kl: "k < length calls"
  obtain org i fr s t where c: "calls ! k = (org, i, fr, s, t)" by (cases "calls ! k") auto
  have step: "add_frames (take (Suc k) calls) d = add_curr_frame org i fr s t ?dk"
    using kl c by (simp add: take_Suc_conv_app_nth add_frames_snoc)
  show "case calls ! k of (org, i, fr, s, t) \<Rightarrow>
          frames (add_frames (take (Suc k) calls) d) = frames ?dk @ [(t, i, fr)]
        \<and> annotations (add_frames (take (Suc k) calls) d) =
            annotations ?dk @
              [(int k, \<lparr>idx = Some i, org_idx = Some org, time_str = Some s,
                        anno = NoAnno, timestamp = Some t\<rparr>)]"
    using add_curr_frame_lockstep [OF lk, of org i fr s t] len
    by (simp add: c step add_curr_frame_frames)
next
  fix org i fr s t and e :: "('f, 's) Data" and j
  assume "j \<noteq> int (length (frames e))"
  then show "map_of (annotations (add_curr_frame org i fr s t e)) j = map_of (annotations e) j"
    by (rule add_curr_frame_other_keys)
qed

theorem monotonic_indexing_lockstep_witness:
  "frames demo_data = [] \<and> annotations demo_data = [] \<and> (2::nat) \<le> length demo_calls
   \<and> (2::nat) < length demo_calls
   \<and> get_frames_length (add_frames (take 2 demo_calls) demo_data) = 2
   \<and> map fst (annotations (add_frames (take 2 demo_calls) demo_data)) = [0, 1]
   \<and> map fst (annotations (add_frames (take 3 demo_calls) demo_data)) = [0, 1, 2]"
proof -
  have a: "frames demo_data = []" and b: "annotations demo_data = []"
    by (simp_all add: demo_data_def Data_init_def)
  have c: "(2::nat) \<le> length demo_calls" and c': "(2::nat) < length demo_calls"
    by (simp_all add: demo_calls_def)
  have n: "demo_calls ! 2 = (8, 7, demo_frame 7, ''0:00:00'', 2 / 10)"
    by (simp add: demo_calls_def)
  have u: "map int [0..<2] = [0, 1]" by (simp add: upt_rec)
  note t = monotonic_indexing_lockstep [OF a b, of demo_calls, THEN conjunct1, rule_format, OF c]
  have "get_frames_length (add_frames (take 2 demo_calls) demo_data) = int 2
      \<and> map fst (annotations (add_frames (take 2 demo_calls) demo_data)) = map int [0..<2]
      \<and> (case demo_calls ! 2 of (org, i, fr, s, t) \<Rightarrow>
           frames (add_frames (take (Suc 2) demo_calls) demo_data) =
             frames (add_frames (take 2 demo_calls) demo_data) @ [(t, i, fr)]
         \<and> annotations (add_frames (take (Suc 2) demo_calls) demo_data) =
             annotations (add_frames (take 2 demo_calls) demo_data) @
               [(int 2, \<lparr>idx = Some i, org_idx = Some org, time_str = Some s,
                         anno = NoAnno, timestamp = Some t\<rparr>)])"
    using t c' by simp
  then show ?thesis using a b c c' n u by simp
qed

subsection \<open>Strokes on the entry of the last frame\<close>

lemma map_entry_twice:
  "AList.map_entry k f (AList.map_entry k g al) = AList.map_entry k (f \<circ> g) al"
  by (induction al) auto

lemma set_anno_twice: "set_anno k b (set_anno k a d) = set_anno k b d"
  by (simp add: set_anno_def map_entry_twice comp_def)

lemma has_key_set_anno: "has_key j (set_anno k a d) = has_key j d"
  by (simp add: has_key_def set_anno_def dom_map_entry)

lemma get_annotation_set_anno:
  "get_annotation k d = Some e \<Longrightarrow> get_annotation k (set_anno k a d) = Some (e\<lparr>anno := a\<rparr>)"
  by (auto simp add: get_annotation_def has_key_set_anno split: if_splits)
     (simp add: set_anno_def map_of_map_entry)

lemma add_annotation_eq:
  assumes "get_frames_length d \<noteq> 0"
    and "get_annotation (get_frames_length d - 1) d = Some e"
  shows "add_annotation command pt d =
           set_anno (get_frames_length d - 1)
             (if anno_is_start (anno e) then Anno ''start'' pt else Anno command pt) d"
proof -
  let ?k = "get_frames_length d - 1"
  have hk: "has_key ?k d" using assms(2) by (auto simp: get_annotation_def split: if_splits)
  show ?thesis
  proof (cases "anno_is_start (anno e)")
    case True
    then show ?thesis
      using assms hk
      by (simp add: add_annotation_def Let_def get_annotation_set_anno set_anno_twice)
  next
    case False
    then show ?thesis
      using assms hk
      by (simp add: add_annotation_def Let_def get_annotation_set_anno set_anno_twice)
  qed
qed

text \<open>
  C3, as the code has it. On a store with at least one frame whose last index has an
  entry e, add_annotation changes nothing but the value under "anno" of this entry: it
  becomes ["start", point] when e holds a "start", whatever the command is, and
  [command, point] otherwise. So a "move" or an "end" on an entry that holds no "start"
  is stored, and a "start" always puts the new point in place of the old one.
\<close>

theorem add_annotation_stroke_machine:
  assumes "get_frames_length d \<noteq> 0"
    and "get_annotation (get_frames_length d - 1) d = Some e"
  shows "add_annotation command pt d =
           set_anno (get_frames_length d - 1)
             (if anno_is_start (anno e) then Anno ''start'' pt else Anno command pt) d
       \<and> get_annotation (get_frames_length d - 1) (add_annotation command pt d) =
           Some (e\<lparr>anno := (if anno_is_start (anno e) then Anno ''start'' pt
                             else Anno command pt)\<rparr>)
       \<and> get_annotation (get_frames_length d - 1) (add_annotation ''start'' pt d) =
           Some (e\<lparr>anno := Anno ''start'' pt\<rparr>)
       \<and> (\<not> anno_is_start (anno e) \<longrightarrow>
            get_annotation (get_frames_length d - 1) (add_annotation command pt d) =
              Some (e\<lparr>anno := Anno command pt\<rparr>))"
  using assms
  by (simp add: add_annotation_eq [OF assms] get_annotation_set_anno)

theorem add_annotation_stroke_machine_witness:
  "get_frames_length demo_one_frame \<noteq> 0
   \<and> get_annotation (get_frames_length demo_one_frame - 1) demo_one_frame =
       Some \<lparr>idx = Some 0, org_idx = Some 1, time_str = Some ''0:00:00'', anno = NoAnno,
             timestamp = Some 0\<rparr>
   \<and> get_annotation (get_frames_length demo_one_frame - 1)
       (add_annotation ''move'' (3, 4) demo_one_frame) =
       Some \<lparr>idx = Some 0, org_idx = Some 1, time_str = Some ''0:00:00'',
             anno = Anno ''move'' (3, 4), timestamp = Some 0\<rparr>"
proof -
  have a: "get_frames_length demo_one_frame \<noteq> 0"
    by (simp add: demo_one_frame_def get_frames_length_def add_curr_frame_frames)
  have b: "get_annotation (get_frames_length demo_one_frame - 1) demo_one_frame =
      Some \<lparr>idx = Some 0, org_idx = Some 1, time_str = Some ''0:00:00'', anno = NoAnno,
            timestamp = Some 0\<rparr>"
    by (simp add: demo_one_frame_def demo_data_def Data_init_def add_curr_frame_def Let_def
        has_key_def new_frame_idx_def get_frames_length_def get_annotation_def)
  note t = add_annotation_stroke_machine [OF a b, of "''move''" "(3, 4)"]
  from t [THEN conjunct2, THEN conjunct1] a b show ?thesis by simp
qed

text \<open>
  C3, as the specification states it, fails: on a store with one frame and no stroke on
  it, a "move" and an "end" each leave a non-empty value under "anno".
\<close>

theorem add_annotation_no_start_counterexample:
  "map (anno \<circ> snd) (annotations demo_one_frame) = [NoAnno]
   \<and> map (anno \<circ> snd) (annotations (add_annotation ''move'' (3, 4) demo_one_frame))
       = [Anno ''move'' (3, 4)]
   \<and> map (anno \<circ> snd) (annotations (add_annotation ''end'' (3, 4) demo_one_frame))
       = [Anno ''end'' (3, 4)]"
  by (simp add: demo_one_frame_def demo_data_def Data_init_def add_curr_frame_def Let_def
      has_key_def new_frame_idx_def get_frames_length_def add_annotation_def get_annotation_def
      set_anno_def)

text \<open>
  C6. A stroke of a "start" at \<open>p0\<close> and an "end" at \<open>p1\<close>: the capture loop draws
  the segment from \<open>p0\<close> to \<open>p1\<close> with short annotations and nothing with long ones;
  the annotated player draws nothing in either mode.
\<close>

theorem two_point_stroke_rendering:
  "two_point_stroke False p0 p1 = Inr [Line p0 p1]
   \<and> two_point_stroke True p0 p1 = Inr []
   \<and> ap_two_point_stroke False p0 p1 = []
   \<and> ap_two_point_stroke True p0 p1 = []"
  by (simp add: two_point_stroke_def ap_two_point_stroke_def demo_player_def demo_data_def
      Data_init_def demo_frame_def
      add_curr_frame_def Let_def has_key_def new_frame_idx_def get_frames_length_def
      get_annotations_length_def add_annotation_def get_annotation_def set_anno_def
      draw_annotations_def get_last_anno_def max_key_def finalize_annotation_chunk_def
      chunk_on_frame_def line_on_frame_def cv2_line_def ap_draw_annotations_def
      ap_finalize_annotation_chunk_def increment_max_frame_def)

section \<open>Properties of the capture loop\<close>

lemma map_of_has_key: "has_key k d \<Longrightarrow> \<exists>e. map_of (annotations d) k = Some e"
  by (metis has_key_def map_of_eq_None_iff not_Some_eq set_map)

lemma add_curr_frame_entry:
  "\<exists>e. get_annotation (new_frame_idx (add_curr_frame org i fr s t d)) (add_curr_frame org i fr s t d) = Some e
       \<and> time_str e = Some s \<and> timestamp e = Some t \<and> idx e = Some i \<and> org_idx e = Some org"
proof -
  let ?d2 = "(if i = max_frames d then increment_max_frame d else d)\<lparr>frames := frames (if i = max_frames d then increment_max_frame d else d) @ [(t, i, fr)]\<rparr>"
  let ?k = "new_frame_idx ?d2"
  have k: "new_frame_idx (add_curr_frame org i fr s t d) = ?k"
    by (simp add: new_frame_idx_def get_frames_length_def add_curr_frame_frames increment_max_frame_def)
  show ?thesis
  proof (cases "has_key ?k ?d2")
    case True
    then obtain e0 where e0: "map_of (annotations ?d2) ?k = Some e0"
      using map_of_has_key by blast
    have "annotations (add_curr_frame org i fr s t d) = AList.map_entry ?k
                  (\<lambda>e. e\<lparr>idx := Some i, org_idx := Some org,
                          time_str := Some s, timestamp := Some t\<rparr>) (annotations ?d2)"
      using True by (simp add: add_curr_frame_def Let_def)
    then show ?thesis using True e0 unfolding k
      by (simp add: get_annotation_def has_key_def dom_map_entry map_of_map_entry)
  next
    case False
    have "annotations (add_curr_frame org i fr s t d) = AList.update ?k
                  \<lparr>idx = Some i, org_idx = Some org, time_str = Some s,
                    anno = NoAnno, timestamp = Some t\<rparr> (annotations ?d2)"
      using False by (simp add: add_curr_frame_def Let_def)
    then show ?thesis unfolding k
      by (simp add: get_annotation_def has_key_def dom_update update_conv')
  qed
qed

lemma start_counter_handle_commands: "start_counter (handle_commands p) = start_counter p"
  by (simp add: handle_commands_def toggle_pause_def seek_def restart_def Let_def
      split: list.splits command.splits)

lemma read_frame_keeps:
  "read_frame rd p = Inr (p1, ct) \<Longrightarrow> start_counter p1 = start_counter p \<and> frame p1 \<noteq> None"
  by (auto simp: read_frame_def split: if_splits option.splits)

lemma read_frame_time:
  "read_frame rd p = Inr (p1, ct) \<Longrightarrow>
     (\<not> paused p \<longrightarrow> (\<forall>f pos msec. rd = Some (f, pos, msec) \<longrightarrow> ct = msec))
   \<and> (paused p \<or> rd = None \<longrightarrow> last_frame_time p = Some ct)"
  by (auto simp: read_frame_def split: if_splits option.splits)

lemma draw_annotations_keeps:
  "draw_annotations p = Inr p2 \<Longrightarrow>
     start_counter p2 = start_counter p \<and> data p2 = data p \<and> pause_frame p2 = pause_frame p
   \<and> curr_frame_idx p2 = curr_frame_idx p \<and> pbar_n p2 = pbar_n p"
  by (auto simp: draw_annotations_def draw_move_annotations_def finalize_annotation_chunk_def
      chunk_on_frame_def line_on_frame_def Let_def
      split: sum.splits option.splits anno.splits if_splits)


text \<open>
  C7, as the code has it. In a tick that completes, the label drawn last on the frame
  and stored as the "time_str" of the new entry is the timer string of \<open>current_time\<close>:
  the \<open>CAP_PROP_POS_MSEC\<close> of the decoder when a frame is read, and the cached
  \<open>last_frame_time\<close> when the player is paused or the read fails. The clock reading
  \<open>now\<close> only gives the "timestamp" of the entry.
\<close>

theorem timer_label_from_decoder_time:
  assumes "process_video_frame rd now p = Inr p'"
  shows "\<exists>p1 current_time e fr.
           read_frame rd (handle_commands p) = Inr (p1, current_time)
         \<and> (\<not> paused (handle_commands p) \<longrightarrow>
              (\<forall>f pos msec. rd = Some (f, pos, msec) \<longrightarrow> current_time = msec))
         \<and> (paused (handle_commands p) \<or> rd = None \<longrightarrow>
              last_frame_time (handle_commands p) = Some current_time)
         \<and> get_annotation (new_frame_idx (data p')) (data p') = Some e
         \<and> time_str e = Some (timedelta_str (py_int current_time))
         \<and> timestamp e = Some (now - start_counter p)
         \<and> frame p' = Some fr
         \<and> drawn fr \<noteq> []
         \<and> last (drawn fr) =
             PutText (timedelta_str (py_int current_time)) (snd (shape fr) - 75, fst (shape fr) - 20)"
proof -
  from assms obtain p1 ct where r: "read_frame rd (handle_commands p) = Inr (p1, ct)"
    by (auto simp: process_video_frame_def split: sum.splits)
  from assms r obtain p2 where d: "(if drawing p1 then draw_annotations p1 else Inr p1) = Inr p2"
    by (auto simp: process_video_frame_def split: sum.splits)
  from assms r d obtain fr0 where f: "frame p2 = Some fr0"
    by (auto simp: process_video_frame_def split: option.splits)
  from assms r d f obtain pf where pf: "pause_frame p2 = Some pf"
    by (auto simp: process_video_frame_def draw_timer_def Let_def split: option.splits)
  let ?s = "timedelta_str (py_int ct)"
  let ?fr = "cv2_putText ?s (snd (shape fr0) - 75, fst (shape fr0) - 20) fr0"
  from assms r d f pf
  have p': "p' = p2\<lparr>frame := Some ?fr,
                    data := add_curr_frame (curr_frame_idx p2) (pbar_n p2) pf ?s
                              (now - start_counter p2) (data p2),
                    pbar_n := pbar_n p2 + 1\<rparr>"
    by (simp add: process_video_frame_def draw_timer_def Let_def)
  have sc: "start_counter p2 = start_counter p"
  proof -
    have "start_counter p2 = start_counter p1"
      using d draw_annotations_keeps [of p1 p2] by (auto split: if_splits)
    with read_frame_keeps [OF r] show ?thesis by (simp add: start_counter_handle_commands)
  qed
  obtain e where e: "get_annotation (new_frame_idx (data p')) (data p') = Some e"
      "time_str e = Some ?s" "timestamp e = Some (now - start_counter p)"
    using add_curr_frame_entry [of "curr_frame_idx p2" "pbar_n p2" pf ?s
        "now - start_counter p2" "data p2"]
    by (auto simp: p' sc)
  have fr: "frame p' = Some ?fr" by (simp add: p')
  have dr: "drawn ?fr \<noteq> [] \<and> last (drawn ?fr) = PutText ?s (snd (shape ?fr) - 75, fst (shape ?fr) - 20)"
    by (simp add: cv2_putText_def)
  from r read_frame_time [OF r] e fr dr show ?thesis by blast
qed

lemma demo_tick_eval:
  "process_video_frame (Some (demo_frame 1, 150, 5000)) 1 (demo_player False) =
     Inr demo_tick_result"
proof -
  have t5: "timedelta_str (py_int 5000) = ''0:00:05''"
    unfolding timedelta_str_def Let_def py_int_def
    by (simp add: pad2_def py_str_def str_nat.simps digit_char_def)
  have h: "handle_commands (demo_player False) = demo_player False"
    by (simp add: handle_commands_def demo_player_def)
  have r: "read_frame (Some (demo_frame 1, 150, 5000)) (demo_player False) =
      Inr ((demo_player False)\<lparr>frame := Some (demo_frame 1), curr_frame_idx := 150,
             pause_frame := Some (demo_frame 1), last_frame_time := Some 5000\<rparr>, 5000)"
    by (simp add: read_frame_def demo_player_def)
  show ?thesis
    unfolding process_video_frame_def h r demo_tick_result_def
    by (simp add: draw_timer_def t5 Let_def) (simp add: demo_player_def demo_frame_def)
qed

theorem timer_label_from_decoder_time_witness:
  "process_video_frame (Some (demo_frame 1, 150, 5000)) 1 (demo_player False) =
     Inr demo_tick_result
   \<and> (\<exists>e fr.
         get_annotation (new_frame_idx (data demo_tick_result)) (data demo_tick_result) = Some e
       \<and> time_str e = Some (timedelta_str (py_int 5000))
       \<and> timestamp e = Some 1
       \<and> frame demo_tick_result = Some fr
       \<and> last (drawn fr) =
           PutText (timedelta_str (py_int 5000)) (snd (shape fr) - 75, fst (shape fr) - 20))"
proof -
  from timer_label_from_decoder_time [OF demo_tick_eval]
  obtain p1 ct e fr where
    r: "read_frame (Some (demo_frame 1, 150, 5000)) (handle_commands (demo_player False))
          = Inr (p1, ct)"
    and t: "\<not> paused (handle_commands (demo_player False)) \<longrightarrow>
          (\<forall>f pos msec. Some (demo_frame 1, 150 :: int, 5000 :: rat) = Some (f, pos, msec)
             \<longrightarrow> ct = msec)"
    and e: "get_annotation (new_frame_idx (data demo_tick_result)) (data demo_tick_result) = Some e"
      "time_str e = Some (timedelta_str (py_int ct))"
      "timestamp e = Some (1 - start_counter (demo_player False))"
    and f: "frame demo_tick_result = Some fr"
      "last (drawn fr) =
         PutText (timedelta_str (py_int ct)) (snd (shape fr) - 75, fst (shape fr) - 20)"
    by blast
  have "\<not> paused (handle_commands (demo_player False))"
    by (simp add: handle_commands_def demo_player_def)
  with t have ct: "ct = 5000" by simp
  have sc: "start_counter (demo_player False) = 0" by (simp add: demo_player_def)
  from e f show ?thesis unfolding ct sc using demo_tick_eval by simp
qed

text \<open>
  C7, as the specification states it, fails: in a tick one second after the start of the
  capture in which the decoder reports 5000 ms, the label is 0:00:05 and not the 0:00:01
  of the clock.
\<close>

theorem timer_label_counterexample:
  "labels_after (process_video_frame (Some (demo_frame 1, 150, 5000)) 1 (demo_player False))
     = Inr [Some ''0:00:05'']
   \<and> drawn_after (process_video_frame (Some (demo_frame 1, 150, 5000)) 1 (demo_player False))
     = Inr [PutText ''0:00:05'' (565, 460)]
   \<and> timedelta_str (py_int (1000 * (1 - start_counter (demo_player False)))) = ''0:00:01''"
proof -
  have t1: "timedelta_str (py_int (1000 * (1 - start_counter (demo_player False)))) = ''0:00:01''"
    unfolding timedelta_str_def Let_def py_int_def demo_player_def
    by (simp add: pad2_def py_str_def str_nat.simps digit_char_def)
  have a: "map (time_str \<circ> snd)
             (annotations (add_curr_frame 150 0 (demo_frame 1) ''0:00:05'' 1 demo_data))
           = [Some ''0:00:05'']"
    by (simp add: demo_data_def Data_init_def add_curr_frame_def Let_def has_key_def
        new_frame_idx_def get_frames_length_def)
  show ?thesis
    unfolding demo_tick_eval labels_after_def drawn_after_def
    using a t1 by (simp add: demo_tick_result_def cv2_putText_def demo_frame_def)
qed

text \<open>
  C5. After restart the frames, the audio chunks and the annotations are empty, the
  current-frame pointer is 0, the max-frame counter is the frame count the decoder
  reports, and the command queue is empty: the next handle_commands applies nothing,
  also when the restart itself was taken from the queue ahead of other commands.
\<close>

theorem restart_clears_state:
  "frames (data (restart p)) = [] \<and> audio_data (data (restart p)) = []
   \<and> annotations (data (restart p)) = [] \<and> annotations_metadata (data (restart p)) = None
   \<and> curr_frame (data (restart p)) = 0
   \<and> max_frames (data (restart p)) = cap_frame_count p
   \<and> command_queue (restart p) = []
   \<and> handle_commands (restart p) = restart p
   \<and> command_queue (handle_commands (p\<lparr>command_queue := Restart # q\<rparr>)) = []"
  by (simp add: restart_def clean_def update_max_frames_def handle_commands_def
      clear_queue_empty Let_def)








text \<open>
  C10. clean empties frames, audio_data and annotations and sets curr_frame to 0; it
  assigns 0 to the attribute max_frame and leaves max_frames and every other attribute
  as they were.
\<close>

theorem clean_frame_effect:
  "clean d = d\<lparr>frames := [], audio_data := [], annotations := [], annotations_metadata := None,
               curr_frame := 0, max_frame := Some 0\<rparr>
   \<and> frames (clean d) = [] \<and> audio_data (clean d) = [] \<and> annotations (clean d) = []
   \<and> annotations_metadata (clean d) = None \<and> curr_frame (clean d) = 0
   \<and> max_frame (clean d) = Some 0 \<and> max_frames (clean d) = max_frames d
   \<and> in_path (clean d) = in_path d \<and> out_path (clean d) = out_path d \<and> name (clean d) = name d
   \<and> in_file_path (clean d) = in_file_path d \<and> annotated_dir (clean d) = annotated_dir d
   \<and> annotated_name (clean d) = annotated_name d \<and> out_file_path (clean d) = out_file_path d
   \<and> frame_rate (clean d) = frame_rate d \<and> frame_count (clean d) = frame_count d
   \<and> frame_width (clean d) = frame_width d \<and> frame_height (clean d) = frame_height d
   \<and> sample_rate (clean d) = sample_rate d \<and> channels (clean d) = channels d
   \<and> audio_name (clean d) = audio_name d \<and> audio_path (clean d) = audio_path d"
  by (simp add: clean_def)

section \<open>Properties of the save sequence\<close>

lemma files_after_clean:
  "makedirs en = None \<Longrightarrow> ffmpeg en = Inr status \<Longrightarrow>
     fst (save_av_and_clean en st1) = None
   \<and> files (snd (save_av_and_clean en st1)) (out_file_path (sdata st1)) = None
   \<and> files (snd (save_av_and_clean en st1)) (audio_path (sdata st1)) = None
   \<and> sdata (snd (save_av_and_clean en st1)) = sdata st1"
  by (simp add: save_av_and_clean_def remove_if_exists_def Let_def)

lemma save_annotations_attempt:
  "fst (save_annotations en st) = None
   \<and> JsonAttempt (str_replace ''.mp4'' ''_annotated.json'' (out_file_path (sdata st)))
       \<in> set (events (snd (save_annotations en st)))"
  by (simp add: save_annotations_def set_metadata_def Let_def split: option.splits)

text \<open>
  C8, as the code has it. When the video and audio stages and os.makedirs raise
  nothing: if ffmpeg runs, then whatever its exit status the intermediate video and audio
  files are gone after save_av_and_clean and the write of the annotation JSON is
  attempted; if ffmpeg cannot be started, the exception ends save_data in the state the
  first two stages left, with no file removed and no JSON write attempted.
\<close>

theorem save_sequence_mux_outcomes:
  assumes "and_then (process_video_data en (ask_out_path en st)) (process_audio_data en) = (None, st1)"
    and "makedirs en = None"
  shows "(\<forall>status. ffmpeg en = Inr status \<longrightarrow>
            fst (save_av_and_clean en st1) = None
          \<and> files (snd (save_av_and_clean en st1)) (out_file_path (sdata st1)) = None
          \<and> files (snd (save_av_and_clean en st1)) (audio_path (sdata st1)) = None
          \<and> fst (save_data en st) = None
          \<and> JsonAttempt (str_replace ''.mp4'' ''_annotated.json'' (out_file_path (sdata st1)))
              \<in> set (events (snd (save_data en st))))
       \<and> (\<forall>e. ffmpeg en = Inl e \<longrightarrow> save_data en st = (Some e, st1))"
proof (intro conjI allI impI)
  fix status assume m: "ffmpeg en = Inr status"
  note c = files_after_clean [OF assms(2) m, of st1]
  obtain st2 where s2: "save_av_and_clean en st1 = (None, st2)"
    using c by (cases "save_av_and_clean en st1") auto
  have sd: "save_data en st = save_annotations en st2"
    unfolding save_data_def assms(1) by (simp add: and_then_def s2)
  have d2: "sdata st2 = sdata st1" using c s2 by simp
  show "fst (save_av_and_clean en st1) = None" using c by simp
  show "files (snd (save_av_and_clean en st1)) (out_file_path (sdata st1)) = None" using c by simp
  show "files (snd (save_av_and_clean en st1)) (audio_path (sdata st1)) = None" using c by simp
  show "fst (save_data en st) = None" using save_annotations_attempt [of en st2] by (simp add: sd)
  show "JsonAttempt (str_replace ''.mp4'' ''_annotated.json'' (out_file_path (sdata st1)))
          \<in> set (events (snd (save_data en st)))"
    using save_annotations_attempt [of en st2] by (simp add: sd d2)
next
  fix e assume m: "ffmpeg en = Inl e"
  have "save_av_and_clean en st1 = (Some e, st1)"
    by (simp add: save_av_and_clean_def assms(2) m Let_def)
  then show "save_data en st = (Some e, st1)"
    unfolding save_data_def assms(1) by (simp add: and_then_def)
qed

lemma rep_mp4: "str_replace ''.mp4'' ''_annotated.mp4'' ''out/clip_annotated.mp4'' = ''out/clip_annotated_annotated.mp4''"
  by (simp add: str_replace.simps)

lemma rep_json: "str_replace ''.mp4'' ''_annotated.json'' ''out/clip_annotated.mp4'' = ''out/clip_annotated_annotated.json''"
  by (simp add: str_replace.simps)


lemma demo_saver_data:
  "frames (sdata demo_saver) = [(0, 0, demo_frame 0), (1 / 10, 7, demo_frame 7)]"
  "audio_data (sdata demo_saver) = [(0, \<lparr>ncols = 2, rows = [1, 2, 3]\<rparr>)]"
  "max_frames (sdata demo_saver) = 100"
  "out_path (sdata demo_saver) = ''out''"
  "out_file_path (sdata demo_saver) = ''out/clip_annotated.mp4''"
  "audio_path (sdata demo_saver) = ''out/clip.wav''"
  by (simp_all add: demo_saver_def demo_calls_def demo_data_def Data_init_def add_audio_data_def
      add_curr_frame_def Let_def has_key_def new_frame_idx_def get_frames_length_def
      eval_nat_numeral)

lemma demo_combined:
  "combined_audio (sdata demo_saver) = Inr \<lparr>ncols = 2, rows = [1, 2, 3]\<rparr>"
  by (simp add: combined_audio_def np_concatenate_def synced_audio_of_def identify_video_gaps_def
      demo_saver_data gaps_from.simps keep_rest.simps)

lemma demo_before_mux:
  "and_then (process_video_data (demo_env mux) (ask_out_path (demo_env mux) demo_saver))
     (process_audio_data (demo_env mux)) = (None, demo_written)"
proof -
  have a: "ask_out_path (demo_env mux) demo_saver = demo_saver"
    by (simp add: ask_out_path_def demo_saver_data)
  have v: "process_video_data (demo_env mux) demo_saver =
      (None, demo_saver\<lparr>files := (\<lambda>path. None)
                   (''out/clip_annotated.mp4'' \<mapsto> Video [demo_frame 0, demo_frame 7]),
                 events := [WroteVideo ''out/clip_annotated.mp4'']\<rparr>)"
    by (simp add: process_video_data_def demo_saver_data Let_def) (simp add: demo_saver_def)
  show ?thesis
    unfolding a v and_then_def
    by (simp add: process_audio_data_def demo_saver_data demo_combined Let_def demo_env_def
        demo_written_def)
qed


theorem save_sequence_mux_outcomes_witness:
  "and_then (process_video_data (demo_env (Inr 1)) (ask_out_path (demo_env (Inr 1)) demo_saver))
     (process_audio_data (demo_env (Inr 1))) = (None, demo_written)
   \<and> makedirs (demo_env (Inr 1)) = None
   \<and> ffmpeg (demo_env (Inr 1)) = Inr 1
   \<and> files (snd (save_av_and_clean (demo_env (Inr 1)) demo_written))
        (out_file_path (sdata demo_written)) = None
   \<and> fst (save_data (demo_env (Inr 1)) demo_saver) = None
   \<and> and_then (process_video_data (demo_env (Inl OSError)) (ask_out_path (demo_env (Inl OSError)) demo_saver))
     (process_audio_data (demo_env (Inl OSError))) = (None, demo_written)
   \<and> makedirs (demo_env (Inl OSError)) = None
   \<and> ffmpeg (demo_env (Inl OSError)) = Inl OSError
   \<and> save_data (demo_env (Inl OSError)) demo_saver = (Some OSError, demo_written)"
proof -
  have m: "makedirs (demo_env mux) = None" for mux by (simp add: demo_env_def)
  have f: "ffmpeg (demo_env mux) = mux" for mux by (simp add: demo_env_def)
  note a = save_sequence_mux_outcomes [OF demo_before_mux m, of "Inr 1", THEN conjunct1,
      rule_format, OF f]
  note b = save_sequence_mux_outcomes [OF demo_before_mux m, of "Inl OSError", THEN conjunct2,
      rule_format, OF f]
  from a b show ?thesis by (simp add: demo_before_mux m f)
qed

text \<open>
  C8, as the specification states it, fails: with ffmpeg failing with exit status 1 both
  intermediate files are removed, and with ffmpeg missing the JSON write is not attempted.
\<close>

theorem mux_failure_counterexample:
  "ffmpeg (demo_env (Inr 1)) = Inr 1
   \<and> events (snd (save_data (demo_env (Inr 1)) demo_saver)) =
       [WroteVideo ''out/clip_annotated.mp4'', WroteAudio ''out/clip.wav'',
        RanMux ''out/clip_annotated.mp4'' ''out/clip.wav'' ''out/clip_annotated_annotated.mp4'' 1,
        Removed ''out/clip_annotated.mp4'', Removed ''out/clip.wav'',
        JsonAttempt ''out/clip_annotated_annotated.json'',
        JsonWritten ''out/clip_annotated_annotated.json'']
   \<and> files (snd (save_data (demo_env (Inr 1)) demo_saver)) ''out/clip_annotated.mp4'' = None
   \<and> files (snd (save_data (demo_env (Inr 1)) demo_saver)) ''out/clip.wav'' = None
   \<and> ffmpeg (demo_env (Inl OSError)) = Inl OSError
   \<and> fst (save_data (demo_env (Inl OSError)) demo_saver) = Some OSError
   \<and> events (snd (save_data (demo_env (Inl OSError)) demo_saver)) =
       [WroteVideo ''out/clip_annotated.mp4'', WroteAudio ''out/clip.wav'']"
proof -
  have w: "out_file_path (sdata demo_written) = ''out/clip_annotated.mp4''"
      "audio_path (sdata demo_written) = ''out/clip.wav''"
    by (simp_all add: demo_written_def demo_saver_data)
  have c: "save_av_and_clean (demo_env (Inr 1)) demo_written =
      (None, demo_written\<lparr>files := (\<lambda>path. None),
         events := [WroteVideo ''out/clip_annotated.mp4'', WroteAudio ''out/clip.wav'',
           RanMux ''out/clip_annotated.mp4'' ''out/clip.wav''
             ''out/clip_annotated_annotated.mp4'' 1,
           Removed ''out/clip_annotated.mp4'', Removed ''out/clip.wav'']\<rparr>)"
    unfolding save_av_and_clean_def Let_def w rep_mp4
    by (simp add: demo_env_def remove_if_exists_def w) (auto simp: demo_written_def fun_eq_iff)
  have j: "save_data (demo_env (Inr 1)) demo_saver =
      save_annotations (demo_env (Inr 1)) (demo_written\<lparr>files := (\<lambda>path. None),
         events := [WroteVideo ''out/clip_annotated.mp4'', WroteAudio ''out/clip.wav'',
           RanMux ''out/clip_annotated.mp4'' ''out/clip.wav''
             ''out/clip_annotated_annotated.mp4'' 1,
           Removed ''out/clip_annotated.mp4'', Removed ''out/clip.wav'']\<rparr>)"
    unfolding save_data_def demo_before_mux by (simp add: and_then_def c)
  have x: "save_av_and_clean (demo_env (Inl OSError)) demo_written = (Some OSError, demo_written)"
    by (simp add: save_av_and_clean_def demo_env_def Let_def)
  have k: "save_data (demo_env (Inl OSError)) demo_saver = (Some OSError, demo_written)"
    unfolding save_data_def demo_before_mux by (simp add: and_then_def x)
  show ?thesis
    unfolding j k
    by (simp add: save_annotations_def set_metadata_def Let_def w rep_json demo_env_def)
       (simp add: demo_written_def)
qed

section \<open>Properties of playback\<close>

lemma digit_char_inj: "a < 10 \<Longrightarrow> b < 10 \<Longrightarrow> digit_char a = digit_char b \<Longrightarrow> a = b"
proof -
  assume a: "a < 10" and b: "b < 10" and e: "digit_char a = digit_char b"
  have d: "distinct ''0123456789''" by simp
  have l: "length ''0123456789'' = 10" by simp
  from e have "''0123456789'' ! a = ''0123456789'' ! b" by (simp only: digit_char_def)
  with d a b l show "a = b" by (metis nth_eq_iff_index_eq)
qed

lemma digit_char_mem: "a < 10 \<Longrightarrow> digit_char a \<in> set ''0123456789''"
proof -
  assume "a < 10"
  then have "a < length ''0123456789''" by simp
  then show ?thesis unfolding digit_char_def by (rule nth_mem)
qed

lemma str_nat_set: "set (str_nat n) \<subseteq> set ''0123456789''"
proof (induction n rule: str_nat.induct)
  case (1 n)
  show ?case
  proof (cases "n < 10")
    case True
    with digit_char_mem [of n] show ?thesis by (subst str_nat.simps) simp
  next
    case False
    have "n mod 10 < 10" by simp
    with digit_char_mem [of "n mod 10"] 1 False show ?thesis
      by (subst str_nat.simps) simp
  qed
qed

lemma str_nat_nonempty: "str_nat n \<noteq> []"
  by (subst str_nat.simps) simp

lemma str_nat_inj: "str_nat m = str_nat n \<Longrightarrow> m = n"
proof (induction m arbitrary: n rule: str_nat.induct)
  case (1 m)
  show ?case
  proof (cases "m < 10")
    case True
    then have m: "str_nat m = [digit_char m]" by (subst str_nat.simps) simp
    show ?thesis
    proof (cases "n < 10")
      case n: True
      then have "str_nat n = [digit_char n]" by (subst str_nat.simps) simp
      with m "1.prems" True n show ?thesis by (simp add: digit_char_inj)
    next
      case n: False
      then have "str_nat n = str_nat (n div 10) @ [digit_char (n mod 10)]"
        by (subst str_nat.simps) simp
      with m "1.prems" str_nat_nonempty [of "n div 10"] show ?thesis by simp
    qed
  next
    case False
    then have m: "str_nat m = str_nat (m div 10) @ [digit_char (m mod 10)]"
      by (subst str_nat.simps) simp
    show ?thesis
    proof (cases "n < 10")
      case n: True
      then have "str_nat n = [digit_char n]" by (subst str_nat.simps) simp
      with m "1.prems" str_nat_nonempty [of "m div 10"] show ?thesis by simp
    next
      case n: False
      then have "str_nat n = str_nat (n div 10) @ [digit_char (n mod 10)]"
        by (subst str_nat.simps) simp
      with m "1.prems" have a: "str_nat (m div 10) = str_nat (n div 10)"
        and b: "digit_char (m mod 10) = digit_char (n mod 10)" by simp_all
      from "1.IH" [OF False a] have "m div 10 = n div 10" .
      moreover from b have "m mod 10 = n mod 10" by (simp add: digit_char_inj)
      ultimately show ?thesis by (metis div_mult_mod_eq)
    qed
  qed
qed

lemma minus_not_digit: "CHR ''-'' \<notin> set (str_nat n)"
  using str_nat_set [of n] by auto

lemma py_str_inj: "py_str i = py_str j \<Longrightarrow> i = j"
proof -
  assume e: "py_str i = py_str j"
  have hd_nat: "hd (str_nat n) \<noteq> CHR ''-''" for n
    using minus_not_digit [of n] str_nat_nonempty [of n] by (cases "str_nat n") auto
  show ?thesis
  proof (cases "i < 0")
    case True
    show ?thesis
    proof (cases "j < 0")
      case j: True
      with True e have "str_nat (nat (- i)) = str_nat (nat (- j))" by (simp add: py_str_def)
      then have "nat (- i) = nat (- j)" by (rule str_nat_inj)
      with True j show ?thesis by simp
    next
      case j: False
      with True e have "CHR ''-'' # str_nat (nat (- i)) = str_nat (nat j)" by (simp add: py_str_def)
      then have "hd (str_nat (nat j)) = CHR ''-''" by (metis list.sel(1))
      with hd_nat show ?thesis by blast
    qed
  next
    case False
    show ?thesis
    proof (cases "j < 0")
      case j: True
      with False e have "str_nat (nat i) = CHR ''-'' # str_nat (nat (- j))" by (simp add: py_str_def)
      then have "hd (str_nat (nat i)) = CHR ''-''" by (metis list.sel(1))
      with hd_nat show ?thesis by blast
    next
      case j: False
      with False e have "str_nat (nat i) = str_nat (nat j)" by (simp add: py_str_def)
      then have "nat i = nat j" by (rule str_nat_inj)
      with False j show ?thesis by simp
    qed
  qed
qed

lemma py_str_not_metadata: "py_str k \<noteq> ''metadata''"
proof
  assume e: "py_str k = ''metadata''"
  show False
  proof (cases "k < 0")
    case True
    with e show False by (simp add: py_str_def)
  next
    case False
    with e have "str_nat (nat k) = ''metadata''" by (simp add: py_str_def)
    then have "CHR ''m'' \<in> set (str_nat (nat k))" by simp
    with str_nat_set [of "nat k"] show False by auto
  qed
qed

lemma map_of_dumped_entries:
  "map_of (map (\<lambda>(k, e). (py_str k, PFrame e)) al) (py_str k) = map_option PFrame (map_of al k)"
  by (induction al) (auto dest: py_str_inj)

lemma map_of_dumped:
  "map_of (dumped d) (py_str k) = map_option PFrame (map_of (annotations d) k)"
proof (cases "map_of (annotations d) k")
  case None
  then show ?thesis
    by (simp add: dumped_def map_of_append map_add_def map_of_dumped_entries
        py_str_not_metadata split: option.splits)
next
  case (Some e)
  then show ?thesis
    by (simp add: dumped_def map_of_append map_add_def map_of_dumped_entries
        py_str_not_metadata split: option.splits)
qed


lemma load_saved:
  "json_write en = None \<Longrightarrow>
   load_metadata (str_replace ''.mp4'' ''_annotated.json'' (out_file_path (sdata st)))
     (files (snd (save_annotations en st))) = Inr (dumped (set_metadata (sdata st)))"
  by (simp add: save_annotations_def load_metadata_def Let_def set_metadata_def)

lemma annotations_set_metadata: "annotations (set_metadata d) = annotations d"
  by (simp add: set_metadata_def)

lemma map_of_filter_other:
  "key \<noteq> k0 \<Longrightarrow> map_of (filter (\<lambda>kv. fst kv \<noteq> k0) doc) key = map_of doc key"
  by (induction doc) auto

lemma replay_entry_meta:
  "replay_entry e fr (ap\<lparr>meta := m\<rparr>) =
     (case replay_entry e fr ap of (a, f) \<Rightarrow> (a\<lparr>meta := m\<rparr>, f))"
  by (simp add: replay_entry_def ap_draw_annotations_def ap_draw_move_annotations_def
      ap_finalize_annotation_chunk_def Let_def split: anno.splits option.splits)

lemma replay_entry_keeps_meta: "meta (fst (replay_entry e fr ap)) = meta ap"
  by (simp add: replay_entry_def ap_draw_annotations_def ap_draw_move_annotations_def
      ap_finalize_annotation_chunk_def Let_def split: anno.splits option.splits)

lemma process_frame_meta:
  assumes "map_of m (py_str n) = map_of (meta ap) (py_str n)"
  shows "process_frame fr n (ap\<lparr>meta := m\<rparr>) =
           (case process_frame fr n ap of
              Inl e \<Rightarrow> Inl e
            | Inr (a, f) \<Rightarrow> Inr (a\<lparr>meta := m\<rparr>, f))"
  using assms
  by (simp add: process_frame_def replay_entry_meta
      split: option.splits persisted.splits prod.splits)

lemma process_frame_keeps_meta: "process_frame fr n ap = Inr (a, f) \<Longrightarrow> meta a = meta ap"
proof -
  assume p: "process_frame fr n ap = Inr (a, f)"
  then have "(a, f) = (ap, fr) \<or> (\<exists>e. replay_entry e fr ap = (a, f))"
    by (auto simp: process_frame_def split: option.splits persisted.splits)
  then show ?thesis
  proof
    assume "(a, f) = (ap, fr)"
    then show ?thesis by simp
  next
    assume "\<exists>e. replay_entry e fr ap = (a, f)"
    then obtain e where "replay_entry e fr ap = (a, f)" ..
    with replay_entry_keeps_meta [of e fr ap] show ?thesis by simp
  qed
qed

lemma show_loop_meta:
  "(\<forall>r \<in> set reads. map_of m (py_str (fst (snd r))) = map_of (meta ap) (py_str (fst (snd r))))
   \<Longrightarrow> show_loop reads (ap\<lparr>meta := m\<rparr>) shown = show_loop reads ap shown"
proof (induction reads arbitrary: ap shown)
  case Nil
  then show ?case by simp
next
  case (Cons r reads)
  obtain fr n q where r: "r = (fr, n, q)" by (cases r) auto
  from Cons.prems have h: "map_of m (py_str n) = map_of (meta ap) (py_str n)"
    by (simp add: r)
  show ?case
  proof (cases "process_frame fr n ap")
    case (Inl e)
    then show ?thesis by (simp add: r process_frame_meta [OF h])
  next
    case (Inr af)
    obtain a f where af: "af = (a, f)" by (cases af) auto
    from Inr af have p: "process_frame fr n ap = Inr (a, f)" by simp
    have ma: "meta a = meta ap" using p by (rule process_frame_keeps_meta)
    have "\<forall>r \<in> set reads. map_of m (py_str (fst (snd r))) = map_of (meta a) (py_str (fst (snd r)))"
      using Cons.prems by (simp add: ma)
    from Cons.IH [OF this] show ?thesis
      by (simp add: r process_frame_meta [OF h] p)
  qed
qed

lemma cap_reads_pos: "r \<in> set (cap_reads pos video) \<Longrightarrow> pos < fst (snd r)"
  by (induction video arbitrary: pos) fastforce+

lemma py_str_zero: "py_str 0 = ''0''"
  by (simp add: py_str_def str_nat.simps digit_char_def)

lemma py_str_one: "py_str 1 = ''1''"
  by (simp add: py_str_def str_nat.simps digit_char_def)

lemma py_str_two: "py_str 2 = ''2''"
  by (simp add: py_str_def str_nat.simps digit_char_def)

lemma show_video_ignores_zero:
  "show_video video (ap\<lparr>meta := filter (\<lambda>kv. fst kv \<noteq> ''0'') doc\<rparr>) =
   show_video video (ap\<lparr>meta := doc\<rparr>)"
proof -
  have "\<forall>r \<in> set (cap_reads 0 video).
          map_of (filter (\<lambda>kv. fst kv \<noteq> ''0'') doc) (py_str (fst (snd r))) =
          map_of (meta (ap\<lparr>meta := doc\<rparr>)) (py_str (fst (snd r)))"
  proof
    fix r assume "r \<in> set (cap_reads 0 video)"
    then have "0 < fst (snd r)" by (rule cap_reads_pos)
    then have "py_str (fst (snd r)) \<noteq> ''0''"
      using py_str_inj [of "fst (snd r)" 0] by (auto simp: py_str_zero)
    then show "map_of (filter (\<lambda>kv. fst kv \<noteq> ''0'') doc) (py_str (fst (snd r))) =
          map_of (meta (ap\<lparr>meta := doc\<rparr>)) (py_str (fst (snd r)))"
      by (simp add: map_of_filter_other)
  qed
  from show_loop_meta [OF this, of "[]"] show ?thesis by (simp add: show_video_def)
qed

lemma demo_timeline_annotations:
  "annotations demo_timeline =
     [(0, \<lparr>idx = Some 0, org_idx = Some 1, time_str = Some ''0:00:00'',
            anno = Anno ''start'' (3, 4), timestamp = Some 0\<rparr>),
      (1, \<lparr>idx = Some 1, org_idx = Some 2, time_str = Some ''0:00:01'',
            anno = Anno ''end'' (5, 6), timestamp = Some 1\<rparr>)]"
proof -
  have a: "add_annotation ''start'' (3, 4) demo_one_frame =
      demo_data\<lparr>frames := [(0, 0, demo_frame 0)],
                annotations := [(0, \<lparr>idx = Some 0, org_idx = Some 1, time_str = Some ''0:00:00'',
                                     anno = Anno ''start'' (3, 4), timestamp = Some 0\<rparr>)]\<rparr>"
    by (simp add: demo_one_frame_def demo_data_def Data_init_def add_curr_frame_def Let_def
        has_key_def new_frame_idx_def get_frames_length_def add_annotation_def
        get_annotation_def set_anno_def)
  show ?thesis
    unfolding demo_timeline_def a
    by (simp add: demo_data_def Data_init_def add_curr_frame_def Let_def
        has_key_def new_frame_idx_def get_frames_length_def add_annotation_def
        get_annotation_def set_anno_def)
qed

lemma demo_dumped: "dumped (set_metadata demo_timeline) = demo_doc"
proof -
  have m: "annotations_metadata (set_metadata demo_timeline) =
      Some \<lparr>md_video_name = ''clip.mp4'', md_frame_rate = 30,
             md_frame_count = 100, md_frame_width = 640, md_frame_height = 480,
             md_sample_rate = 44100, md_channels = 2\<rparr>"
    by (simp add: set_metadata_def demo_timeline_def demo_one_frame_def demo_data_def
        Data_init_def add_curr_frame_def Let_def has_key_def new_frame_idx_def
        get_frames_length_def add_annotation_def get_annotation_def set_anno_def)
  show ?thesis
    unfolding dumped_def m annotations_set_metadata demo_timeline_annotations
    by (simp add: py_str_zero py_str_one demo_doc_def)
qed

lemma demo_show:
  "show_video [demo_frame 0, demo_frame 1] (demo_ap\<lparr>meta := demo_doc\<rparr>) =
     Inr [(demo_frame 0)\<lparr>drawn := [PutText ''0:00:01'' (565, 460)]\<rparr>, demo_frame 1]"
  by (simp add: show_video_def process_frame_def py_str_one py_str_two demo_doc_def
      replay_entry_def ap_draw_annotations_def ap_finalize_annotation_chunk_def demo_ap_def
      draw_time_def cv2_putText_def demo_frame_def)

lemma demo_written_frames:
  "write_frames 1 100 0 (frames demo_timeline) [] = Inr [demo_frame 0, demo_frame 1]"
  by (simp add: demo_timeline_def demo_one_frame_def demo_data_def Data_init_def
      add_curr_frame_def Let_def has_key_def new_frame_idx_def get_frames_length_def
      add_annotation_def get_annotation_def set_anno_def)

text \<open>
  C4. The annotation file holds the entry of the frame index k under the key \<open>str(k)\<close>,
  from 0 on, and show looks up the frame number the decoder reports after each read, from
  1 on. So what show shows never depends on the entry under "0". On the capture of two
  frames, saved and loaded, show draws on the first frame of the video the label of the
  second entry and nothing of the first entry, and finds no entry for the second frame.
\<close>

theorem playback_frame_offset:
  "show_video video (ap\<lparr>meta := filter (\<lambda>kv. fst kv \<noteq> ''0'') doc\<rparr>) =
     show_video video (ap\<lparr>meta := doc\<rparr>)
   \<and> write_frames 1 100 0 (frames demo_timeline) [] = Inr [demo_frame 0, demo_frame 1]
   \<and> load_metadata
       (str_replace ''.mp4'' ''_annotated.json'' (out_file_path (sdata demo_json_saver)))
       (files (snd (save_annotations (demo_env (Inr 0)) demo_json_saver))) = Inr demo_doc
   \<and> show_video [demo_frame 0, demo_frame 1] (demo_ap\<lparr>meta := demo_doc\<rparr>) =
       Inr [(demo_frame 0)\<lparr>drawn := [PutText ''0:00:01'' (565, 460)]\<rparr>, demo_frame 1]"
proof -
  have j: "json_write (demo_env (Inr 0)) = None" by (simp add: demo_env_def)
  have "sdata demo_json_saver = demo_timeline" by (simp add: demo_json_saver_def)
  with load_saved [OF j, of demo_json_saver] demo_dumped
  have "load_metadata
       (str_replace ''.mp4'' ''_annotated.json'' (out_file_path (sdata demo_json_saver)))
       (files (snd (save_annotations (demo_env (Inr 0)) demo_json_saver))) = Inr demo_doc"
    by simp
  with show_video_ignores_zero [of video doc ap] demo_written_frames demo_show
  show ?thesis by simp
qed

end
